theory Spec2Isabelle
  imports Main
begin

chapter \<open>The portal\<close>

section \<open>Values of the portal\<close>

text \<open>
  The portal (\<^verbatim>\<open>app.py\<close>) moves JSON request bodies into a document store and reads
  them back. A value is \<^verbatim>\<open>None\<close>, a boolean, an integer, a string, a list, a
  dictionary (with its keys in insertion order) or a \<^verbatim>\<open>datetime\<close>. Floating-point
  numbers are outside the model. A string is a list of characters, read as code points
  below 256.
\<close>

record datetime =
  year :: nat
  month :: nat
  day :: nat
  hour :: nat
  minute :: nat
  second :: nat
  microsecond :: nat

datatype jval =
    JNull
  | JBool bool
  | JInt int
  | JStr string
  | JList "jval list"
  | JObj "(string \<times> jval) list"
  | JDate datetime

datatype py_error =
    ValueError
  | TypeError
  | AttributeError
  | KeyError
  | OverflowError
  | InvalidDocument

text \<open>Python's truth value of an object, as \<^verbatim>\<open>if x\<close>, \<^verbatim>\<open>not x\<close> and \<^verbatim>\<open>x or y\<close> read it.\<close>

fun truthy :: "jval \<Rightarrow> bool" where
  "truthy JNull = False"
| "truthy (JBool b) = b"
| "truthy (JInt i) = (i \<noteq> 0)"
| "truthy (JStr s) = (s \<noteq> [])"
| "truthy (JList xs) = (xs \<noteq> [])"
| "truthy (JObj kvs) = (kvs \<noteq> [])"
| "truthy (JDate d) = True"

text \<open>\<^verbatim>\<open>x or y\<close>.\<close>

definition py_or :: "jval \<Rightarrow> jval \<Rightarrow> jval" where
  "py_or x y = (if truthy x then x else y)"

text \<open>
  \<^verbatim>\<open>d.get(k)\<close> on a dictionary: the value under the key, \<^verbatim>\<open>None\<close> when the key
  is missing.
\<close>

definition get :: "(string \<times> jval) list \<Rightarrow> string \<Rightarrow> jval" where
  "get kvs k = (case map_of kvs k of None \<Rightarrow> JNull | Some v \<Rightarrow> v)"

text \<open>
  \<^verbatim>\<open>payload.get(k)\<close> on a parsed request body: only a dictionary has the method, every
  other value raises \<^verbatim>\<open>AttributeError\<close>.
\<close>

fun py_get :: "jval \<Rightarrow> string \<Rightarrow> py_error + jval" where
  "py_get (JObj kvs) k = Inr (get kvs k)"
| "py_get v k = Inl AttributeError"

subsection \<open>The built-in \<^verbatim>\<open>int\<close> and \<^verbatim>\<open>str.strip\<close>\<close>

text \<open>\<^verbatim>\<open>str.isspace\<close> for one code point below 256.\<close>

definition isspace :: "char \<Rightarrow> bool" where
  "isspace c =
     (let n = (of_char c :: nat)
      in (9 \<le> n \<and> n \<le> 13) \<or> (28 \<le> n \<and> n \<le> 32) \<or> n = 133 \<or> n = 160)"

text \<open>\<^verbatim>\<open>s.strip()\<close>: leading and trailing whitespace removed.\<close>

definition strip :: "string \<Rightarrow> string" where
  "strip s = rev (dropWhile isspace (rev (dropWhile isspace s)))"

definition digit_of :: "char \<Rightarrow> nat option" where
  "digit_of c =
     (let n = (of_char c :: nat) in if 48 \<le> n \<and> n \<le> 57 then Some (n - 48) else None)"

text \<open>
  The digits of a decimal literal after its first digit: a single underscore may stand
  between two digits.
\<close>

fun digits_val :: "nat \<Rightarrow> string \<Rightarrow> nat option" where
  "digits_val acc [] = Some acc"
| "digits_val acc (c # cs) =
     (if c = CHR ''_'' then
        (case cs of
           [] \<Rightarrow> None
         | d # ds \<Rightarrow>
             (case digit_of d of None \<Rightarrow> None | Some v \<Rightarrow> digits_val (acc * 10 + v) ds))
      else
        (case digit_of c of None \<Rightarrow> None | Some v \<Rightarrow> digits_val (acc * 10 + v) cs))"

definition unsigned_val :: "string \<Rightarrow> nat option" where
  "unsigned_val s =
     (case s of
        [] \<Rightarrow> None
      | c # cs \<Rightarrow> (case digit_of c of None \<Rightarrow> None | Some v \<Rightarrow> digits_val v cs))"

text \<open>
  The whitespace that \<^verbatim>\<open>int\<close> drops around a literal, for one code point below 256. It
  is narrower than \<^verbatim>\<open>str.isspace\<close>: the separators 28 to 31 are not dropped, and
  \<^verbatim>\<open>int\<close> raises on them.
\<close>

definition int_space :: "char \<Rightarrow> bool" where
  "int_space c =
     (let n = (of_char c :: nat) in (9 \<le> n \<and> n \<le> 13) \<or> n = 32 \<or> n = 133 \<or> n = 160)"

definition int_strip :: "string \<Rightarrow> string" where
  "int_strip s = rev (dropWhile int_space (rev (dropWhile int_space s)))"

text \<open>
  The value of an unsigned decimal literal. A literal of more than 4300 digits (the
  interpreter's default limit; underscores are not counted) is refused.
\<close>

definition literal_val :: "string \<Rightarrow> py_error + nat" where
  "literal_val s =
     (case unsigned_val s of
        None \<Rightarrow> Inl ValueError
      | Some n \<Rightarrow>
          if 4300 < length (filter (\<lambda>c. c \<noteq> CHR ''_'') s) then Inl ValueError else Inr n)"

text \<open>
  \<^verbatim>\<open>int(s)\<close> for a string: surrounding whitespace is dropped, one sign is allowed, the
  rest is a decimal literal; anything else raises \<^verbatim>\<open>ValueError\<close>.
\<close>

definition int_of_str :: "string \<Rightarrow> py_error + int" where
  "int_of_str s =
     (case int_strip s of
        [] \<Rightarrow> Inl ValueError
      | c # cs \<Rightarrow>
          (if c = CHR ''-'' then
             (case literal_val cs of Inl err \<Rightarrow> Inl err | Inr n \<Rightarrow> Inr (- int n))
           else if c = CHR ''+'' then
             (case literal_val cs of Inl err \<Rightarrow> Inl err | Inr n \<Rightarrow> Inr (int n))
           else
             (case literal_val (c # cs) of Inl err \<Rightarrow> Inl err | Inr n \<Rightarrow> Inr (int n))))"

text \<open>\<^verbatim>\<open>int(x)\<close>: a value that is neither a number nor a string raises \<^verbatim>\<open>TypeError\<close>.\<close>

fun py_int :: "jval \<Rightarrow> py_error + int" where
  "py_int (JInt i) = Inr i"
| "py_int (JBool b) = Inr (if b then 1 else 0)"
| "py_int (JStr s) = int_of_str s"
| "py_int v = Inl TypeError"

text \<open>\<^verbatim>\<open>x.strip()\<close>: only a string has the method.\<close>

fun py_strip :: "jval \<Rightarrow> py_error + jval" where
  "py_strip (JStr s) = Inr (JStr (strip s))"
| "py_strip v = Inl AttributeError"

text \<open>
  Iterating a value (\<^verbatim>\<open>for d in ds\<close>, \<^verbatim>\<open>",".join(ds)\<close>): a list gives its items, a
  string its characters, a dictionary its keys; nothing else is iterable.
\<close>

fun py_iter :: "jval \<Rightarrow> py_error + jval list" where
  "py_iter (JList xs) = Inr xs"
| "py_iter (JStr s) = Inr (map (\<lambda>c. JStr [c]) s)"
| "py_iter (JObj kvs) = Inr (map (\<lambda>kv. JStr (fst kv)) kvs)"
| "py_iter v = Inl TypeError"

subsection \<open>\<^verbatim>\<open>datetime.isoformat\<close>\<close>

fun dec :: "nat \<Rightarrow> string" where
  "dec n =
     (if n < 10 then [''0123456789'' ! n]
      else dec (n div 10) @ [''0123456789'' ! (n mod 10)])"

declare dec.simps [simp del]

text \<open>\<^verbatim>\<open>"%0wd" % n\<close>: the decimal digits of \<^verbatim>\<open>n\<close>, padded with zeros to width \<^verbatim>\<open>w\<close>.\<close>

definition zpad :: "nat \<Rightarrow> nat \<Rightarrow> string" where
  "zpad w n = replicate (w - length (dec n)) CHR ''0'' @ dec n"

text \<open>
  \<^verbatim>\<open>d.isoformat()\<close> of a naive \<^verbatim>\<open>datetime\<close>: \<^verbatim>\<open>YYYY-MM-DDTHH:MM:SS\<close>, followed by
  \<^verbatim>\<open>.ffffff\<close> when the microsecond is not zero.
\<close>

definition isoformat :: "datetime \<Rightarrow> string" where
  "isoformat d =
     zpad 4 (year d) @ ''-'' @ zpad 2 (month d) @ ''-'' @ zpad 2 (day d) @ ''T'' @
     zpad 2 (hour d) @ '':'' @ zpad 2 (minute d) @ '':'' @ zpad 2 (second d) @
     (if microsecond d = 0 then [] else ''.'' @ zpad 6 (microsecond d))"

section \<open>The stores and the session\<close>

text \<open>
  An engagement document: the seven keys that \<^verbatim>\<open>log_engagement\<close> writes (lines 54 to
  62), each with its value or null, and the identifier \<^verbatim>\<open>_id\<close> the store gives the
  document. The loops of the insights read a document with \<^verbatim>\<open>e.get\<close>, for which a
  key that is missing and a key that holds null are the same \<^verbatim>\<open>None\<close>; the model has
  no document that lacks one of the keys.
\<close>

record engagement =
  oid :: string
  user_id :: jval
  age :: jval
  job :: jval
  desires :: jval
  question_clicked :: jval
  service :: jval
  timestamp :: jval

text \<open>
  A service document is free-form: its fields in order. The store's own \<^verbatim>\<open>_id\<close> of a
  service is never read by the portal and is left out.
\<close>

type_synonym doc = "(string \<times> jval) list"

record state =
  session :: doc
  services_col :: "doc list"
  eng_col :: "engagement list"

record lead =
  user :: jval
  question :: jval
  count :: nat

text \<open>
  What the store's driver refuses to encode, met in the order of the fields: an integer
  outside 64 bits raises \<^verbatim>\<open>OverflowError\<close>, a field name with a NUL character raises
  \<^verbatim>\<open>InvalidDocument\<close>. \<^verbatim>\<open>None\<close> stands for a value that is encoded.
\<close>

fun bson_value :: "jval \<Rightarrow> py_error option"
  and bson_items :: "jval list \<Rightarrow> py_error option"
  and bson_fields :: "(string \<times> jval) list \<Rightarrow> py_error option" where
  "bson_value (JInt i) =
     (if - (2 ^ 63) \<le> i \<and> i < 2 ^ 63 then None else Some OverflowError)"
| "bson_value (JList xs) = bson_items xs"
| "bson_value (JObj kvs) = bson_fields kvs"
| "bson_value JNull = None"
| "bson_value (JBool b) = None"
| "bson_value (JStr s) = None"
| "bson_value (JDate d) = None"
| "bson_items [] = None"
| "bson_items (x # xs) = (case bson_value x of Some err \<Rightarrow> Some err | None \<Rightarrow> bson_items xs)"
| "bson_fields [] = None"
| "bson_fields (kv # kvs) =
     (if CHR 0x00 \<in> set (fst kv) then Some InvalidDocument
      else (case bson_value (snd kv) of Some err \<Rightarrow> Some err | None \<Rightarrow> bson_fields kvs))"

text \<open>The report of \<^verbatim>\<open>admin_insights\<close>, one field for each key of its JSON object.\<close>

record report =
  r_age_groups :: "(string \<times> nat) list"
  r_jobs :: "(jval \<times> nat) list"
  r_services :: "(jval \<times> nat) list"
  r_questions :: "(jval \<times> nat) list"
  r_desires :: "(jval \<times> nat) list"
  r_premium_suggestions :: "lead list"

text \<open>
  What a request handler gives back: a response (status and body), or an exception that
  escapes the handler. The body of the CSV export is kept as the rows handed to
  \<^verbatim>\<open>csv.writer\<close>; the writer's quoting is the library's. \<^verbatim>\<open>Unmodelled\<close> marks a
  request whose effect on the store the model does not describe.
\<close>

datatype body =
    Json jval
  | Insights report
  | Csv "jval list list"
  | Template string

datatype result = Resp nat body | Raised py_error | Unmodelled

text \<open>Sequencing of steps that may raise: the first exception ends the computation.\<close>

definition bind_err :: "py_error + 'a \<Rightarrow> ('a \<Rightarrow> py_error + 'b) \<Rightarrow> py_error + 'b" where
  "bind_err m f = (case m of Inl err \<Rightarrow> Inl err | Inr x \<Rightarrow> f x)"

section \<open>Public route: \<^verbatim>\<open>POST /api/engagement\<close>\<close>

text \<open>
  The document of lines 53 to 62. \<^verbatim>\<open>request_json\<close> is the parsed body
  (\<^verbatim>\<open>request.json\<close>, with \<^verbatim>\<open>JNull\<close> for the body \<^verbatim>\<open>null\<close>); a body that the
  framework cannot parse never reaches the handler. \<^verbatim>\<open>now\<close> is
  \<^verbatim>\<open>datetime.utcnow()\<close> at the store's resolution and \<^verbatim>\<open>new_oid\<close> the identifier the
  insert gives the document.
\<close>

definition engagement_doc :: "jval \<Rightarrow> datetime \<Rightarrow> string \<Rightarrow> py_error + engagement" where
  "engagement_doc request_json now new_oid =
     (let payload = py_or request_json (JObj []) in
      bind_err (py_get payload ''user_id'') (\<lambda>u.
      bind_err (py_get payload ''age'') (\<lambda>a.
      bind_err (if truthy a then bind_err (py_int a) (\<lambda>n. Inr (JInt n)) else Inr JNull) (\<lambda>a'.
      bind_err (py_get payload ''job'') (\<lambda>j.
      bind_err (py_get payload ''desires'') (\<lambda>ds.
      bind_err (py_get payload ''question_clicked'') (\<lambda>q.
      bind_err (py_get payload ''service'') (\<lambda>sv.
        Inr \<lparr> oid = new_oid,
              user_id = py_or u JNull,
              age = a',
              job = j,
              desires = py_or ds (JList []),
              question_clicked = q,
              service = sv,
              timestamp = JDate now \<rparr>))))))))"

text \<open>
  \<^verbatim>\<open>insert_one(doc)\<close>: the document is encoded field by field and added to the
  collection; a value the driver refuses raises, and nothing is added.
\<close>

definition insert_one :: "engagement \<Rightarrow> engagement list \<Rightarrow> py_error + engagement list" where
  "insert_one d col =
     (case bson_items [user_id d, age d, job d, desires d, question_clicked d, service d,
                       timestamp d] of
        Some err \<Rightarrow> Inl err
      | None \<Rightarrow> Inr (col @ [d]))"

definition log_engagement :: "jval \<Rightarrow> datetime \<Rightarrow> string \<Rightarrow> state \<Rightarrow> state \<times> result" where
  "log_engagement request_json now new_oid s =
     (case engagement_doc request_json now new_oid of
        Inl err \<Rightarrow> (s, Raised err)
      | Inr d \<Rightarrow>
          (case insert_one d (eng_col s) of
             Inl err \<Rightarrow> (s, Raised err)
           | Inr col \<Rightarrow>
               (s\<lparr>eng_col := col\<rparr>, Resp 200 (Json (JObj [(''status'', JStr ''ok'')])))))"

section \<open>The session gate\<close>

definition admin_required :: "(state \<Rightarrow> state \<times> result) \<Rightarrow> state \<Rightarrow> state \<times> result" where
  "admin_required fn s =
     (if \<not> truthy (get (session s) ''admin_logged_in'')
      then (s, Resp 401 (Json (JObj [(''error'', JStr ''unauthorized'')])))
      else fn s)"

section \<open>The insights\<close>

subsection \<open>Age groups\<close>

definition age_groups_init :: "(string \<times> nat) list" where
  "age_groups_init = [(''<18'', 0), (''18-25'', 0), (''26-40'', 0), (''41-60'', 0), (''60+'', 0)]"

text \<open>\<^verbatim>\<open>d[k] += 1\<close>: a missing key raises \<^verbatim>\<open>KeyError\<close>.\<close>

fun incr :: "string \<Rightarrow> (string \<times> nat) list \<Rightarrow> py_error + (string \<times> nat) list" where
  "incr k [] = Inl KeyError"
| "incr k ((k', v) # d) =
     (if k = k' then Inr ((k', v + 1) # d)
      else bind_err (incr k d) (\<lambda>d'. Inr ((k', v) # d')))"

text \<open>The body of the \<^verbatim>\<open>try\<close> of lines 109 to 119.\<close>

definition age_try :: "jval \<Rightarrow> (string \<times> nat) list \<Rightarrow> py_error + (string \<times> nat) list" where
  "age_try a ag =
     bind_err (py_int a) (\<lambda>n.
       if n < 18 then incr ''<18'' ag
       else if n \<le> 25 then incr ''18-25'' ag
       else if n \<le> 40 then incr ''26-40'' ag
       else if n \<le> 60 then incr ''41-60'' ag
       else incr ''60+'' ag)"

text \<open>One pass of the loop of lines 104 to 121: a falsy age and a raised exception both skip the record.\<close>

definition age_step :: "(string \<times> nat) list \<Rightarrow> engagement \<Rightarrow> (string \<times> nat) list" where
  "age_step ag e =
     (let a = age e in
      if \<not> truthy a then ag
      else (case age_try a ag of Inl err \<Rightarrow> ag | Inr ag' \<Rightarrow> ag'))"

definition age_groups :: "engagement list \<Rightarrow> (string \<times> nat) list" where
  "age_groups es = foldl age_step age_groups_init es"

subsection \<open>Frequency tables\<close>

text \<open>
  A Python dictionary used as a counter, in insertion order. Keys are compared as Python
  compares them: \<^verbatim>\<open>True\<close> is the key \<^verbatim>\<open>1\<close> and \<^verbatim>\<open>False\<close> the key \<^verbatim>\<open>0\<close>. A list or a
  dictionary is not hashable and raises \<^verbatim>\<open>TypeError\<close> when used as a key.
\<close>

fun py_key :: "jval \<Rightarrow> jval" where
  "py_key (JBool b) = JInt (if b then 1 else 0)"
| "py_key v = v"

fun hashable :: "jval \<Rightarrow> bool" where
  "hashable (JList xs) = False"
| "hashable (JObj kvs) = False"
| "hashable v = True"

text \<open>
  Counting one more occurrence of a key in a table, keys compared through \<^verbatim>\<open>norm\<close>: the
  entry of an equal key is incremented in place, a new key is added at the end with
  count 1.
\<close>

fun count_in :: "('k \<Rightarrow> 'n) \<Rightarrow> 'k \<Rightarrow> ('k \<times> nat) list \<Rightarrow> ('k \<times> nat) list" where
  "count_in norm k [] = [(k, 1)]"
| "count_in norm k ((k', c) # d) =
     (if norm k = norm k' then (k', c + 1) # d else (k', c) # count_in norm k d)"

definition dict_bump :: "jval \<Rightarrow> (jval \<times> nat) list \<Rightarrow> (jval \<times> nat) list" where
  "dict_bump k d = count_in py_key k d"

text \<open>\<^verbatim>\<open>d[k] = d.get(k, 0) + 1\<close>.\<close>

definition bump :: "jval \<Rightarrow> (jval \<times> nat) list \<Rightarrow> py_error + (jval \<times> nat) list" where
  "bump k d = (if hashable k then Inr (dict_bump k d) else Inl TypeError)"

text \<open>The loop of lines 125 to 127; \<^verbatim>\<open>job_key\<close> is the key of line 126.\<close>

definition job_key :: "engagement \<Rightarrow> py_error + jval" where
  "job_key e = py_strip (py_or (job e) (JStr ''Unknown''))"

fun jobs_loop :: "(jval \<times> nat) list \<Rightarrow> engagement list \<Rightarrow> py_error + (jval \<times> nat) list" where
  "jobs_loop jobs [] = Inr jobs"
| "jobs_loop jobs (e # es) =
     bind_err (job_key e) (\<lambda>j.
     bind_err (bump j jobs) (\<lambda>jobs'.
       jobs_loop jobs' es))"

text \<open>The inner loop of lines 139 and 140.\<close>

fun desires_loop :: "(jval \<times> nat) list \<Rightarrow> jval list \<Rightarrow> py_error + (jval \<times> nat) list" where
  "desires_loop dsr [] = Inr dsr"
| "desires_loop dsr (d # ds) = bind_err (bump d dsr) (\<lambda>dsr'. desires_loop dsr' ds)"

text \<open>The loop of lines 133 to 140, on the three tables it fills.\<close>

fun services_loop ::
  "(jval \<times> nat) list \<times> (jval \<times> nat) list \<times> (jval \<times> nat) list \<Rightarrow> engagement list \<Rightarrow>
   py_error + (jval \<times> nat) list \<times> (jval \<times> nat) list \<times> (jval \<times> nat) list" where
  "services_loop tabs [] = Inr tabs"
| "services_loop (services, questions, dsr) (e # es) =
     (let s = py_or (service e) (JStr ''Unknown'');
          q = py_or (question_clicked e) (JStr ''Unknown'');
          ds = py_or (desires e) (JList [])
      in
      bind_err (bump s services) (\<lambda>services'.
      bind_err (bump q questions) (\<lambda>questions'.
      bind_err (py_iter ds) (\<lambda>items.
      bind_err (desires_loop dsr items) (\<lambda>dsr'.
        services_loop (services', questions', dsr') es)))))"

subsection \<open>Premium suggestions\<close>

text \<open>
  The store's \<^verbatim>\<open>aggregate\<close> on the pipeline of lines 143 to 146: \<^verbatim>\<open>$group\<close> counts
  the documents under each pair of \<^verbatim>\<open>user_id\<close> and \<^verbatim>\<open>question_clicked\<close>, \<^verbatim>\<open>$match\<close>
  keeps the groups of two or more. Values are grouped by equality. The store gives the
  groups in an order of its own; the model takes the order of their first documents.
  Every document of the model has both keys, so that every group has a \<^verbatim>\<open>user\<close> and a
  \<^verbatim>\<open>question\<close> for line 148 to read.
\<close>

definition group_bump :: "jval \<times> jval \<Rightarrow> ((jval \<times> jval) \<times> nat) list \<Rightarrow> ((jval \<times> jval) \<times> nat) list" where
  "group_bump k g = count_in (\<lambda>x. x) k g"

definition group_stage :: "engagement list \<Rightarrow> ((jval \<times> jval) \<times> nat) list" where
  "group_stage es = foldl (\<lambda>g e. group_bump (user_id e, question_clicked e) g) [] es"

definition repeated :: "engagement list \<Rightarrow> ((jval \<times> jval) \<times> nat) list" where
  "repeated es = filter (\<lambda>r. 2 \<le> snd r) (group_stage es)"

text \<open>Line 148: a group whose user is falsy gives no suggestion.\<close>

definition premium_suggestions :: "engagement list \<Rightarrow> lead list" where
  "premium_suggestions es =
     map (\<lambda>r. \<lparr> user = fst (fst r), question = snd (fst r), count = snd r \<rparr>)
       (filter (\<lambda>r. truthy (fst (fst r))) (repeated es))"

subsection \<open>The report\<close>

definition insights :: "engagement list \<Rightarrow> py_error + report" where
  "insights es =
     (let ag = age_groups es in
      bind_err (jobs_loop [] es) (\<lambda>jobs.
      bind_err (services_loop ([], [], []) es) (\<lambda>tabs.
        Inr \<lparr> r_age_groups = ag,
              r_jobs = jobs,
              r_services = fst tabs,
              r_questions = fst (snd tabs),
              r_desires = snd (snd tabs),
              r_premium_suggestions = premium_suggestions es \<rparr>)))"

text \<open>
  \<^verbatim>\<open>jsonify\<close> writes a table with its keys sorted. Strings are ordered among
  themselves, numbers and booleans among themselves; sorting keys of two kinds raises
  \<^verbatim>\<open>TypeError\<close>, and so does a key that is a \<^verbatim>\<open>datetime\<close>. A lone \<^verbatim>\<open>None\<close> is
  written as \<^verbatim>\<open>null\<close>. The values of a report are counts and stored values, which are
  all written.
\<close>

fun key_kind :: "jval \<Rightarrow> nat" where
  "key_kind (JStr s) = 0"
| "key_kind (JInt i) = 1"
| "key_kind (JBool b) = 1"
| "key_kind JNull = 2"
| "key_kind v = 3"

definition json_keys :: "(jval \<times> nat) list \<Rightarrow> bool" where
  "json_keys d \<longleftrightarrow>
     list_all (\<lambda>p. key_kind (fst p) \<le> 2 \<and> key_kind (fst p) = key_kind (fst (hd d))) d"

definition jsonify_report :: "report \<Rightarrow> py_error + body" where
  "jsonify_report r =
     (if json_keys (r_jobs r) \<and> json_keys (r_services r) \<and> json_keys (r_questions r) \<and>
         json_keys (r_desires r)
      then Inr (Insights r) else Inl TypeError)"

definition admin_insights_fn :: "state \<Rightarrow> state \<times> result" where
  "admin_insights_fn s =
     (case bind_err (insights (eng_col s)) jsonify_report of
        Inl err \<Rightarrow> (s, Raised err)
      | Inr b \<Rightarrow> (s, Resp 200 b))"

definition admin_insights :: "state \<Rightarrow> state \<times> result" where
  "admin_insights = admin_required admin_insights_fn"

section \<open>The other admin routes\<close>

subsection \<open>Engagement listing\<close>

text \<open>
  One item of lines 163 to 166: the identifier as text, and a truthy timestamp replaced
  by its ISO text (only a \<^verbatim>\<open>datetime\<close> has \<^verbatim>\<open>isoformat\<close>).
\<close>

definition listing_item :: "engagement \<Rightarrow> py_error + jval" where
  "listing_item e =
     bind_err
       (if truthy (timestamp e)
        then (case timestamp e of JDate d \<Rightarrow> Inr (JStr (isoformat d)) | _ \<Rightarrow> Inl AttributeError)
        else Inr (timestamp e))
       (\<lambda>t. Inr (JObj [(''_id'', JStr (oid e)), (''user_id'', user_id e), (''age'', age e),
                        (''job'', job e), (''desires'', desires e),
                        (''question_clicked'', question_clicked e), (''service'', service e),
                        (''timestamp'', t)]))"

fun listing_loop :: "engagement list \<Rightarrow> py_error + jval list" where
  "listing_loop [] = Inr []"
| "listing_loop (e # es) =
     bind_err (listing_item e) (\<lambda>i. bind_err (listing_loop es) (\<lambda>items. Inr (i # items)))"

text \<open>
  \<^verbatim>\<open>sort_desc\<close> is the store's \<^verbatim>\<open>sort("timestamp", -1)\<close>, taken as a parameter: the
  order it gives to equal and to differently typed timestamps is the store's own.
\<close>

definition admin_engagements_fn ::
  "(engagement list \<Rightarrow> engagement list) \<Rightarrow> state \<Rightarrow> state \<times> result" where
  "admin_engagements_fn sort_desc s =
     (case listing_loop (take 500 (sort_desc (eng_col s))) of
        Inl err \<Rightarrow> (s, Raised err)
      | Inr items \<Rightarrow> (s, Resp 200 (Json (JList items))))"

subsection \<open>CSV export\<close>

text \<open>\<^verbatim>\<open>sep.join(v)\<close>: the items of \<^verbatim>\<open>v\<close> must all be strings.\<close>

fun strs :: "jval list \<Rightarrow> py_error + string list" where
  "strs [] = Inr []"
| "strs (JStr s # vs) = bind_err (strs vs) (\<lambda>ss. Inr (s # ss))"
| "strs (v # vs) = Inl TypeError"

fun join :: "string \<Rightarrow> string list \<Rightarrow> string" where
  "join sep [] = []"
| "join sep [s] = s"
| "join sep (s # t # ss) = s @ sep @ join sep (t # ss)"

definition py_join :: "string \<Rightarrow> jval \<Rightarrow> py_error + string" where
  "py_join sep v = bind_err (py_iter v) (\<lambda>items. bind_err (strs items) (\<lambda>ss. Inr (join sep ss)))"

definition csv_header :: "jval list" where
  "csv_header = [JStr ''user_id'', JStr ''age'', JStr ''job'', JStr ''desire'',
                 JStr ''question'', JStr ''service'', JStr ''timestamp'']"

text \<open>The row of lines 178 to 183, as handed to \<^verbatim>\<open>writerow\<close>.\<close>

definition csv_row :: "engagement \<Rightarrow> py_error + jval list" where
  "csv_row e =
     bind_err (py_join '','' (py_or (desires e) (JList []))) (\<lambda>d.
     bind_err
       (if truthy (timestamp e)
        then (case timestamp e of JDate t \<Rightarrow> Inr (isoformat t) | _ \<Rightarrow> Inl AttributeError)
        else Inr [])
       (\<lambda>ts.
         Inr [user_id e, age e, job e, JStr d, question_clicked e, service e, JStr ts]))"

fun csv_rows :: "engagement list \<Rightarrow> py_error + jval list list" where
  "csv_rows [] = Inr []"
| "csv_rows (e # es) =
     bind_err (csv_row e) (\<lambda>r. bind_err (csv_rows es) (\<lambda>rs. Inr (r # rs)))"

text \<open>
  \<^verbatim>\<open>send_file\<close> of the framework answers with the content of a binary stream and
  raises \<^verbatim>\<open>ValueError\<close> on a text stream. The content of a stream is kept as the rows
  written to it.
\<close>

datatype stream = StringIO "jval list list" | BytesIO "jval list list"

fun send_file :: "stream \<Rightarrow> py_error + body" where
  "send_file (StringIO rows) = Inl ValueError"
| "send_file (BytesIO rows) = Inr (Csv rows)"

text \<open>Lines 172 to 190: the rows are written to a text stream, which is handed to \<^verbatim>\<open>send_file\<close>.\<close>

definition export_csv_fn :: "state \<Rightarrow> state \<times> result" where
  "export_csv_fn s =
     (case bind_err (csv_rows (eng_col s)) (\<lambda>rows. send_file (StringIO (csv_header # rows))) of
        Inl err \<Rightarrow> (s, Raised err)
      | Inr b \<Rightarrow> (s, Resp 200 b))"

subsection \<open>Service catalog\<close>

text \<open>Setting one field of a document: replaced in place, or added at the end.\<close>

fun set_field :: "string \<Rightarrow> jval \<Rightarrow> doc \<Rightarrow> doc" where
  "set_field k v [] = [(k, v)]"
| "set_field k v ((k', v') # d) = (if k = k' then (k, v) # d else (k', v') # set_field k v d)"

text \<open>
  The store reads a name with a dot as a path into the document and a name with a
  leading dollar as an operator, and it keeps \<^verbatim>\<open>_id\<close> fixed. A plain name is none of
  these; an update is a top-level update when its names, and the names inside its
  values, are plain and it does not name \<^verbatim>\<open>_id\<close>.
\<close>

definition plain_name :: "string \<Rightarrow> bool" where
  "plain_name k \<longleftrightarrow> k \<noteq> [] \<and> CHR ''.'' \<notin> set k \<and> hd k \<noteq> CHR ''$''"

fun plain_value :: "jval \<Rightarrow> bool"
  and plain_items :: "jval list \<Rightarrow> bool"
  and plain_fields :: "(string \<times> jval) list \<Rightarrow> bool" where
  "plain_value (JList xs) = plain_items xs"
| "plain_value (JObj kvs) = plain_fields kvs"
| "plain_value JNull = True"
| "plain_value (JBool b) = True"
| "plain_value (JInt i) = True"
| "plain_value (JStr s) = True"
| "plain_value (JDate d) = True"
| "plain_items [] = True"
| "plain_items (x # xs) = (plain_value x \<and> plain_items xs)"
| "plain_fields [] = True"
| "plain_fields (kv # kvs) = (plain_name (fst kv) \<and> plain_value (snd kv) \<and> plain_fields kvs)"

definition top_level_update :: "doc \<Rightarrow> bool" where
  "top_level_update payload \<longleftrightarrow> plain_fields payload \<and> ''_id'' \<notin> set (map fst payload)"

text \<open>
  The update \<^verbatim>\<open>{"$set": payload}\<close> of a top-level update on one document: every field
  of the payload is set, the document's other fields stay where they are. Fields that
  are new to the document come after the others; the model adds them in the payload's
  order, the store in an order of its own, and the properties of the upsert read the
  updated document as a map from names to values.
\<close>

definition set_fields :: "doc \<Rightarrow> doc \<Rightarrow> doc" where
  "set_fields payload d = foldl (\<lambda>d' kv. set_field (fst kv) (snd kv) d') d payload"

text \<open>
  The filter \<^verbatim>\<open>{"id": sid}\<close> for a value \<^verbatim>\<open>sid\<close> that is not itself a document of
  operators: a document matches when its \<^verbatim>\<open>id\<close> equals the value, or is an array that
  holds the value.
\<close>

definition id_matches :: "jval \<Rightarrow> doc \<Rightarrow> bool" where
  "id_matches sid d =
     (case map_of d ''id'' of
        None \<Rightarrow> False
      | Some v \<Rightarrow> v = sid \<or> (case v of JList xs \<Rightarrow> sid \<in> set xs | _ \<Rightarrow> False))"

text \<open>
  \<^verbatim>\<open>update_one({"id": sid}, {"$set": payload}, upsert=True)\<close>: the first document that
  matches the filter is updated; when there is none, a document is made of the filter's
  \<^verbatim>\<open>id\<close> and the update, and inserted.
\<close>

fun update_one_upsert :: "jval \<Rightarrow> doc \<Rightarrow> doc list \<Rightarrow> doc list" where
  "update_one_upsert sid payload [] = [set_fields payload [(''id'', sid)]]"
| "update_one_upsert sid payload (d # ds) =
     (if id_matches sid d then set_fields payload d # ds
      else d # update_one_upsert sid payload ds)"

text \<open>\<^verbatim>\<open>delete_one({"id": sid})\<close>: the first document that matches the filter goes.\<close>

fun delete_one :: "jval \<Rightarrow> doc list \<Rightarrow> doc list" where
  "delete_one sid [] = []"
| "delete_one sid (d # ds) = (if id_matches sid d then ds else d # delete_one sid ds)"

datatype http_method = GET | POST jval

text \<open>
  Lines 196 to 204; a \<^verbatim>\<open>POST\<close> carries the parsed request body. The driver encodes the
  filter and the update before the store sees them. The model describes the update when
  it is a top-level update and the \<^verbatim>\<open>id\<close> is not an object; what the store does with
  paths, operators and \<^verbatim>\<open>_id\<close> is left \<^verbatim>\<open>Unmodelled\<close>.
\<close>

fun admin_services_fn :: "http_method \<Rightarrow> state \<Rightarrow> state \<times> result" where
  "admin_services_fn GET s = (s, Resp 200 (Json (JList (map JObj (services_col s)))))"
| "admin_services_fn (POST (JObj payload)) s =
     (let sid = get payload ''id'' in
      if \<not> truthy sid then (s, Resp 400 (Json (JObj [(''error'', JStr ''id required'')])))
      else
        (case bson_fields payload of
           Some err \<Rightarrow> (s, Raised err)
         | None \<Rightarrow>
             if top_level_update payload \<and> (case sid of JObj kvs \<Rightarrow> False | _ \<Rightarrow> True)
             then (s\<lparr>services_col := update_one_upsert sid payload (services_col s)\<rparr>,
                   Resp 200 (Json (JObj [(''status'', JStr ''ok'')])))
             else (s, Unmodelled)))"
| "admin_services_fn (POST v) s = (s, Raised AttributeError)"

definition delete_service_fn :: "string \<Rightarrow> state \<Rightarrow> state \<times> result" where
  "delete_service_fn service_id s =
     (s\<lparr>services_col := delete_one (JStr service_id) (services_col s)\<rparr>,
      Resp 200 (Json (JObj [(''status'', JStr ''deleted'')])))"

subsection \<open>Session\<close>

definition admin_logout_fn :: "state \<Rightarrow> state \<times> result" where
  "admin_logout_fn s = (s\<lparr>session := []\<rparr>, Resp 200 (Json (JObj [(''status'', JStr ''logged out'')])))"

text \<open>
  Lines 86 to 89: a login that finds the admin and the password sets two keys of the
  session. The collection of admins is not part of the state, so the model takes the
  success of the lookup as given.
\<close>

definition admin_login_ok :: "jval \<Rightarrow> state \<Rightarrow> state" where
  "admin_login_ok username s =
     s\<lparr>session := set_field ''admin_user'' username
                     (set_field ''admin_logged_in'' (JBool True) (session s))\<rparr>"

definition manage_page_fn :: "state \<Rightarrow> state \<times> result" where
  "manage_page_fn s = (s, Resp 200 (Template ''manage.html''))"

subsection \<open>The routes behind the gate\<close>

datatype admin_request =
    ManagePage
  | Logout
  | GetInsights
  | ListEngagements
  | ExportCsv
  | Services http_method
  | DeleteService string

text \<open>Every route that carries the decorator \<^verbatim>\<open>@admin_required\<close>, with its handler.\<close>

fun admin_route ::
  "(engagement list \<Rightarrow> engagement list) \<Rightarrow> admin_request \<Rightarrow> state \<Rightarrow> state \<times> result" where
  "admin_route sort_desc ManagePage = admin_required manage_page_fn"
| "admin_route sort_desc Logout = admin_required admin_logout_fn"
| "admin_route sort_desc GetInsights = admin_insights"
| "admin_route sort_desc ListEngagements = admin_required (admin_engagements_fn sort_desc)"
| "admin_route sort_desc ExportCsv = admin_required export_csv_fn"
| "admin_route sort_desc (Services m) = admin_required (admin_services_fn m)"
| "admin_route sort_desc (DeleteService service_id) = admin_required (delete_service_fn service_id)"

chapter \<open>Properties\<close>

section \<open>Notions the properties are stated with\<close>

text \<open>A sample instant and an engagement with every optional field absent, for the examples.\<close>

definition t0 :: datetime where
  "t0 = \<lparr> year = 2024, month = 1, day = 2, hour = 3, minute = 4, second = 5, microsecond = 0 \<rparr>"

definition blank :: engagement where
  "blank = \<lparr> oid = ''e0'', user_id = JNull, age = JNull, job = JNull, desires = JList [],
             question_clicked = JNull, service = JNull, timestamp = JDate t0 \<rparr>"

text \<open>A session after a successful login, on empty stores.\<close>

definition admin_state :: state where
  "admin_state = \<lparr> session = [(''admin_logged_in'', JBool True), (''admin_user'', JStr ''admin'')],
                   services_col = [], eng_col = [] \<rparr>"

text \<open>
  The age the histogram loop counts a record under: the record's age when it is truthy
  and \<^verbatim>\<open>int\<close> converts it, and none otherwise.
\<close>

definition counted_age :: "engagement \<Rightarrow> int option" where
  "counted_age e =
     (if truthy (age e) then (case py_int (age e) of Inl err \<Rightarrow> None | Inr n \<Rightarrow> Some n)
      else None)"

definition age_in :: "(int \<Rightarrow> bool) \<Rightarrow> engagement \<Rightarrow> bool" where
  "age_in P e = (case counted_age e of None \<Rightarrow> False | Some n \<Rightarrow> P n)"

text \<open>
  The key the job histogram files a record under when its job is a string or absent:
  the trimmed job, and \<^verbatim>\<open>Unknown\<close> for an absent or empty job.
\<close>

definition job_name :: "engagement \<Rightarrow> string" where
  "job_name e =
     (case job e of JStr s \<Rightarrow> if s = [] then ''Unknown'' else strip s | _ \<Rightarrow> ''Unknown'')"

text \<open>The total count a table holds for the keys that \<^verbatim>\<open>norm\<close> sends to \<^verbatim>\<open>x\<close>.\<close>

definition tally :: "('k \<Rightarrow> 'n) \<Rightarrow> ('k \<times> nat) list \<Rightarrow> 'n \<Rightarrow> nat" where
  "tally norm d x = sum_list (map snd (filter (\<lambda>p. norm (fst p) = x) d))"

text \<open>
  The export row as the specification words it: the seven cells in the fixed order, the
  desires joined with commas, the timestamp as ISO text or empty.
\<close>

definition desire_strs :: "jval \<Rightarrow> string list" where
  "desire_strs v =
     (case v of JList xs \<Rightarrow> map (\<lambda>x. case x of JStr s \<Rightarrow> s | _ \<Rightarrow> []) xs | _ \<Rightarrow> [])"

definition flat_row :: "engagement \<Rightarrow> jval list" where
  "flat_row e =
     [user_id e, age e, job e, JStr (join '','' (desire_strs (desires e))),
      question_clicked e, service e,
      JStr (case timestamp e of JDate t \<Rightarrow> isoformat t | _ \<Rightarrow> [])]"

text \<open>The ranges of the fields of a Python \<^verbatim>\<open>datetime\<close>.\<close>

definition valid_datetime :: "datetime \<Rightarrow> bool" where
  "valid_datetime t \<longleftrightarrow>
     1 \<le> year t \<and> year t \<le> 9999 \<and> 1 \<le> month t \<and> month t \<le> 12 \<and>
     1 \<le> day t \<and> day t \<le> 31 \<and>
     hour t < 24 \<and> minute t < 60 \<and> second t < 60 \<and> microsecond t < 1000000"

text \<open>
  A text fits a pattern when it has the pattern's length, a digit wherever the pattern
  has \<^verbatim>\<open>d\<close>, and the pattern's own character everywhere else. The ISO-8601 shape of a
  timestamp is \<^verbatim>\<open>dddd-dd-ddTdd:dd:dd\<close>, with or without six digits of a fraction.
\<close>

fun matches :: "string \<Rightarrow> string \<Rightarrow> bool" where
  "matches [] [] = True"
| "matches (p # ps) (c # cs) =
     ((if p = CHR ''d'' then digit_of c \<noteq> None else c = p) \<and> matches ps cs)"
| "matches ps cs = False"

definition iso_shape :: "string \<Rightarrow> bool" where
  "iso_shape s \<longleftrightarrow>
     matches ''dddd-dd-ddTdd:dd:dd'' s \<or> matches ''dddd-dd-ddTdd:dd:dd.dddddd'' s"

text \<open>
  The requests that change the state, and the state after a sequence of them: a logged
  engagement (with the time and the identifier the store gives it), a login that
  succeeds, and the routes behind the gate. The routes left out (the pages, the public
  reads of the catalog, a login that fails, the search placeholder) read the state or
  nothing; line 63 is the only write to the engagements.
\<close>

datatype request = Post jval datetime string | Login jval | Admin admin_request

fun run :: "(engagement list \<Rightarrow> engagement list) \<Rightarrow> request list \<Rightarrow> state \<Rightarrow> state" where
  "run sort_desc [] s = s"
| "run sort_desc (Post request_json now new_oid # rs) s =
     run sort_desc rs (fst (log_engagement request_json now new_oid s))"
| "run sort_desc (Login username # rs) s = run sort_desc rs (admin_login_ok username s)"
| "run sort_desc (Admin req # rs) s = run sort_desc rs (fst (admin_route sort_desc req s))"

text \<open>Sample inputs of the examples.\<close>

definition premium_requests :: "request list" where
  "premium_requests =
     [Post (JObj [(''user_id'', JStr ''A''), (''question_clicked'', JStr ''Q1'')]) t0 ''e1'',
      Post (JObj [(''user_id'', JStr ''A''), (''question_clicked'', JStr ''Q1'')]) t0 ''e2'',
      Post (JObj [(''user_id'', JStr ''A''), (''question_clicked'', JStr ''Q2'')]) t0 ''e3'',
      Post (JObj [(''question_clicked'', JStr ''Q1'')]) t0 ''e4'',
      Post (JObj [(''user_id'', JStr []), (''question_clicked'', JStr ''Q1'')]) t0 ''e5'']"

definition catalog_sample :: state where
  "catalog_sample =
     admin_state\<lparr>services_col :=
       [[(''id'', JStr ''s1''), (''name'', JStr ''Old''), (''category'', JStr ''health'')]]\<rparr>"

definition patch_sample :: doc where
  "patch_sample = [(''id'', JStr ''s1''), (''name'', JStr ''New'')]"

definition jobs_sample :: "engagement list" where
  "jobs_sample = [blank\<lparr>job := JStr '' nurse ''\<rparr>, blank\<lparr>job := JStr ''nurse''\<rparr>, blank,
                  blank\<lparr>job := JStr []\<rparr>]"

definition export_requests :: "request list" where
  "export_requests =
     [Post (JObj [(''user_id'', JStr ''u1''), (''desires'', JList [JStr ''a'', JStr ''b''])]) t0 ''e1'',
      Post (JObj []) t0 ''e2'']"

definition request_sample :: jval where
  "request_sample =
     JObj [(''user_id'', JStr []), (''desires'', JList [JStr ''housing'']),
           (''question_clicked'', JStr ''Q1'')]"

definition logged_sample :: engagement where
  "logged_sample =
     \<lparr> oid = ''e1'', user_id = JNull, age = JNull, job = JNull,
       desires = JList [JStr ''housing''], question_clicked = JStr ''Q1'', service = JNull,
       timestamp = JDate t0 \<rparr>"

section \<open>Requests without a login\<close>

text \<open>
  Claim C6. Every admin-only route (manage page, logout, insights, engagement listing,
  export, service listing and upsert, service delete) called on a session whose
  \<^verbatim>\<open>admin_logged_in\<close> is not set answers 401 with \<^verbatim>\<open>{"error": "unauthorized"}\<close> and
  leaves the session and both stores as they were.
\<close>

theorem admin_gate_unauthorized:
  "\<not> truthy (get (session s) ''admin_logged_in'') \<Longrightarrow>
   admin_route sort_desc req s = (s, Resp 401 (Json (JObj [(''error'', JStr ''unauthorized'')])))"
  by (cases req) (simp_all add: admin_required_def admin_insights_def)

theorem admin_gate_unauthorized_witness:
  "\<not> truthy (get [] ''admin_logged_in'') \<and>
   admin_route (\<lambda>es. es) (DeleteService ''s1'')
     \<lparr> session = [], services_col = [[(''id'', JStr ''s1'')]], eng_col = [] \<rparr> =
   (\<lparr> session = [], services_col = [[(''id'', JStr ''s1'')]], eng_col = [] \<rparr>,
    Resp 401 (Json (JObj [(''error'', JStr ''unauthorized'')])))"
  using admin_gate_unauthorized
    [of "\<lparr> session = [], services_col = [[(''id'', JStr ''s1'')]], eng_col = [] \<rparr>"
        "\<lambda>es. es" "DeleteService ''s1''"]
  by (simp add: get_def)

section \<open>Service upsert\<close>

text \<open>
  Claim C8. For a logged-in admin, a service upsert whose payload object has no
  \<^verbatim>\<open>id\<close> field answers 400 with \<^verbatim>\<open>{"error": "id required"}\<close>, whatever the other
  fields are, and changes nothing.
\<close>

theorem upsert_id_required:
  "truthy (get (session s) ''admin_logged_in'') \<Longrightarrow> ''id'' \<notin> fst ` set payload \<Longrightarrow>
   admin_route sort_desc (Services (POST (JObj payload))) s =
     (s, Resp 400 (Json (JObj [(''error'', JStr ''id required'')])))"
  by (simp add: admin_required_def get_def map_of_eq_None_iff [THEN iffD2])

theorem upsert_id_required_witness:
  "truthy (get (session admin_state) ''admin_logged_in'') \<and>
   ''id'' \<notin> fst ` set [(''name'', JStr ''Passports''), (''category'', JStr ''travel'')] \<and>
   admin_route (\<lambda>es. es)
     (Services (POST (JObj [(''name'', JStr ''Passports''), (''category'', JStr ''travel'')])))
     admin_state =
   (admin_state, Resp 400 (Json (JObj [(''error'', JStr ''id required'')])))"
  using upsert_id_required
    [of admin_state "[(''name'', JStr ''Passports''), (''category'', JStr ''travel'')]" "\<lambda>es. es"]
  by (simp add: admin_state_def get_def)

lemma map_of_set_field: "map_of (set_field k v d) = (map_of d)(k \<mapsto> v)"
  by (induction d) (auto simp: fun_eq_iff)

lemma map_of_set_fields: "map_of (set_fields payload d) = map_of d ++ map_of (rev payload)"
  unfolding set_fields_def
proof (induction payload arbitrary: d)
  case Nil
  show ?case by simp
next
  case (Cons kv payload)
  show ?case
    by (simp add: Cons.IH map_of_set_field fun_eq_iff map_add_def split: option.splits)
qed

lemma map_of_rev_distinct: "distinct (map fst xs) \<Longrightarrow> map_of (rev xs) = map_of xs"
proof (induction xs)
  case Nil
  show ?case by simp
next
  case (Cons p xs)
  obtain a b where p: "p = (a, b)" by (cases p)
  from Cons.prems p have n: "map_of xs a = None" by (simp add: map_of_eq_None_iff)
  from Cons.prems have ih: "map_of (rev xs) = map_of xs" by (simp add: Cons.IH)
  show ?case
    using n by (auto simp: p ih fun_eq_iff map_add_def split: option.splits)
qed

lemma upsert_match:
  "\<forall>x\<in>set pre. \<not> id_matches sid x \<Longrightarrow> id_matches sid d \<Longrightarrow>
   update_one_upsert sid payload (pre @ d # post) = pre @ set_fields payload d # post"
  by (induction pre) simp_all

lemma upsert_insert:
  "\<forall>x\<in>set col. \<not> id_matches sid x \<Longrightarrow>
   update_one_upsert sid payload col = col @ [set_fields payload [(''id'', sid)]]"
  by (induction col) simp_all

text \<open>
  Claim C4, as amended. For a logged-in admin and a payload object with distinct keys
  whose \<^verbatim>\<open>id\<close> is a non-empty string, whose field names are plain top-level names
  (no dot, no leading dollar, not \<^verbatim>\<open>_id\<close>) and whose values the store encodes, the
  upsert answers \<^verbatim>\<open>{"status": "ok"}\<close> and changes the catalog in one place: the first
  stored record that matches the \<^verbatim>\<open>id\<close> (its \<^verbatim>\<open>id\<close> is the value, or an array holding
  it) gets every field of the payload, its value replaced or the field added, and keeps
  its fields that the payload does not name; when no stored record matches, a record
  with exactly the payload's fields is added at the end.
\<close>

theorem upsert_merges:
  assumes auth: "truthy (get (session s) ''admin_logged_in'')"
    and id: "map_of payload ''id'' = Some (JStr sid)" and ne: "sid \<noteq> []"
    and keys: "distinct (map fst payload)"
    and plain: "top_level_update payload"
    and enc: "bson_fields payload = None"
  shows "\<exists>new. admin_route sort_desc (Services (POST (JObj payload))) s =
             (s\<lparr>services_col := new\<rparr>, Resp 200 (Json (JObj [(''status'', JStr ''ok'')]))) \<and>
           (\<forall>pre d post.
              services_col s = pre @ d # post \<and>
              (\<forall>x\<in>set pre. \<not> id_matches (JStr sid) x) \<and>
              id_matches (JStr sid) d \<longrightarrow>
              (\<exists>d'. new = pre @ d' # post \<and> map_of d' = map_of d ++ map_of payload)) \<and>
           ((\<forall>x\<in>set (services_col s). \<not> id_matches (JStr sid) x) \<longrightarrow>
              (\<exists>d'. new = services_col s @ [d'] \<and> map_of d' = map_of payload))"
proof -
  let ?new = "update_one_upsert (JStr sid) payload (services_col s)"
  have g: "get payload ''id'' = JStr sid" using id by (simp add: get_def)
  have run: "admin_route sort_desc (Services (POST (JObj payload))) s =
      (s\<lparr>services_col := ?new\<rparr>, Resp 200 (Json (JObj [(''status'', JStr ''ok'')])))"
    using auth g ne plain enc by (simp add: admin_required_def)
  have m: "map_of (set_fields payload d) = map_of d ++ map_of payload" for d
    using keys by (simp add: map_of_set_fields map_of_rev_distinct)
  have a: "\<exists>d'. ?new = pre @ d' # post \<and> map_of d' = map_of d ++ map_of payload"
    if "services_col s = pre @ d # post" "\<forall>x\<in>set pre. \<not> id_matches (JStr sid) x"
      "id_matches (JStr sid) d" for pre d post
    using that m by (simp add: upsert_match)
  have "map_of [(''id'', JStr sid)] ++ map_of payload = map_of payload"
    using id by (auto simp: fun_eq_iff map_add_def split: option.splits)
  then have b: "\<exists>d'. ?new = services_col s @ [d'] \<and> map_of d' = map_of payload"
    if "\<forall>x\<in>set (services_col s). \<not> id_matches (JStr sid) x"
    using that m [of "[(''id'', JStr sid)]"] by (simp add: upsert_insert)
  from run a b show ?thesis by blast
qed

theorem upsert_merges_witness:
  "truthy (get (session catalog_sample) ''admin_logged_in'') \<and>
   map_of patch_sample ''id'' = Some (JStr ''s1'') \<and>
   ''s1'' \<noteq> [] \<and>
   distinct (map fst patch_sample) \<and>
   top_level_update patch_sample \<and>
   bson_fields patch_sample = None \<and>
   (\<exists>new. admin_route (\<lambda>es. es) (Services (POST (JObj patch_sample))) catalog_sample =
             (catalog_sample\<lparr>services_col := new\<rparr>,
              Resp 200 (Json (JObj [(''status'', JStr ''ok'')]))) \<and>
           (\<forall>pre d post.
              services_col catalog_sample = pre @ d # post \<and>
              (\<forall>x\<in>set pre. \<not> id_matches (JStr ''s1'') x) \<and>
              id_matches (JStr ''s1'') d \<longrightarrow>
              (\<exists>d'. new = pre @ d' # post \<and> map_of d' = map_of d ++ map_of patch_sample)) \<and>
           ((\<forall>x\<in>set (services_col catalog_sample). \<not> id_matches (JStr ''s1'') x) \<longrightarrow>
              (\<exists>d'. new = services_col catalog_sample @ [d'] \<and>
                    map_of d' = map_of patch_sample)))"
proof -
  have h1: "truthy (get (session catalog_sample) ''admin_logged_in'')"
    by (simp add: catalog_sample_def admin_state_def get_def)
  have h2: "map_of patch_sample ''id'' = Some (JStr ''s1'')"
    by (simp add: patch_sample_def)
  have h3: "''s1'' \<noteq> []" by simp
  have h4: "distinct (map fst patch_sample)"
    by (simp add: patch_sample_def)
  have h5: "top_level_update patch_sample"
    by (simp add: patch_sample_def top_level_update_def plain_name_def)
  have h6: "bson_fields patch_sample = None"
    by (simp add: patch_sample_def)
  from h1 h2 h3 h4 h5 h6 upsert_merges [OF h1 h2 h3 h4 h5 h6, of "\<lambda>es. es"]
  show ?thesis by (intro conjI)
qed

text \<open>
  Claim C4 as stated fails on a stored record with the fields \<^verbatim>\<open>id\<close>, \<^verbatim>\<open>name\<close> and
  \<^verbatim>\<open>category\<close> and a payload with \<^verbatim>\<open>id\<close> and \<^verbatim>\<open>name\<close> only: the old \<^verbatim>\<open>category\<close>
  survives the upsert.
\<close>

theorem upsert_keeps_old_fields_counterexample:
  "services_col (fst (admin_route (\<lambda>es. es)
      (Services (POST (JObj [(''id'', JStr ''s1''), (''name'', JStr ''New'')])))
      (admin_state\<lparr>services_col :=
         [[(''id'', JStr ''s1''), (''name'', JStr ''Old''), (''category'', JStr ''health'')]]\<rparr>))) =
   [[(''id'', JStr ''s1''), (''name'', JStr ''New''), (''category'', JStr ''health'')]]"
  by (simp add: admin_state_def admin_required_def get_def set_fields_def id_matches_def
      top_level_update_def plain_name_def)

section \<open>Engagement logging\<close>

text \<open>
  Claim C5, at the input where the code departs from it: a request body whose
  \<^verbatim>\<open>age\<close> is the string \<^verbatim>\<open>"abc"\<close>. The conversion \<^verbatim>\<open>int("abc")\<close> raises
  \<^verbatim>\<open>ValueError\<close>, nothing catches it, no record is inserted and no
  \<^verbatim>\<open>{"status": "ok"}\<close> is sent.
\<close>

theorem log_engagement_bad_age:
  "log_engagement (JObj [(''age'', JStr ''abc'')]) now new_oid s = (s, Raised ValueError)"
  by (simp add: log_engagement_def engagement_doc_def py_or_def bind_err_def get_def
      int_of_str_def int_strip_def int_space_def literal_val_def unsigned_val_def digit_of_def)

lemma lead_user_truthy: "l \<in> set (premium_suggestions es) \<Longrightarrow> truthy (user l)"
  by (auto simp: premium_suggestions_def)

lemma engagement_doc_fields:
  assumes "engagement_doc request_json now new_oid = Inr d"
  shows "\<exists>payload. py_or request_json (JObj []) = JObj payload \<and>
           d = \<lparr> oid = new_oid,
                 user_id = py_or (get payload ''user_id'') JNull,
                 age = age d,
                 job = get payload ''job'',
                 desires = py_or (get payload ''desires'') (JList []),
                 question_clicked = get payload ''question_clicked'',
                 service = get payload ''service'',
                 timestamp = JDate now \<rparr>"
proof (cases "py_or request_json (JObj [])")
  case (JObj payload)
  with assms show ?thesis
    by (auto simp: engagement_doc_def bind_err_def Let_def split: sum.splits if_splits)
qed (use assms in \<open>simp_all add: engagement_doc_def bind_err_def\<close>)

lemma engagement_doc_invariants:
  assumes "engagement_doc request_json now new_oid = Inr d"
  shows "\<exists>payload. py_or request_json (JObj []) = JObj payload \<and>
           timestamp d = JDate now \<and> timestamp d \<noteq> JNull \<and>
           desires d = (if truthy (get payload ''desires'') then get payload ''desires'' else JList []) \<and>
           (''desires'' \<notin> fst ` set payload \<or> \<not> truthy (get payload ''desires'') \<longrightarrow>
              desires d = JList []) \<and>
           (\<forall>xs. get payload ''desires'' = JList xs \<longrightarrow> desires d = JList xs) \<and>
           (''user_id'' \<notin> fst ` set payload \<or> get payload ''user_id'' = JStr [] \<longrightarrow>
              user_id d = JNull) \<and>
           (user_id d = JNull \<or> truthy (user_id d)) \<and>
           (user_id d = JNull \<longrightarrow>
              (\<forall>es. \<forall>l\<in>set (premium_suggestions es).
                 \<not> (user l = user_id d \<and> question l = question_clicked d)))"
proof -
  from engagement_doc_fields [OF assms] obtain payload
    where p: "py_or request_json (JObj []) = JObj payload"
      and d: "d = \<lparr> oid = new_oid,
                 user_id = py_or (get payload ''user_id'') JNull,
                 age = age d,
                 job = get payload ''job'',
                 desires = py_or (get payload ''desires'') (JList []),
                 question_clicked = get payload ''question_clicked'',
                 service = get payload ''service'',
                 timestamp = JDate now \<rparr>"
    by blast
  from d have ts: "timestamp d = JDate now"
    and ds: "desires d = py_or (get payload ''desires'') (JList [])"
    and u: "user_id d = py_or (get payload ''user_id'') JNull"
    by (metis engagement.select_convs)+
  have absent: "get payload k = JNull" if "k \<notin> fst ` set payload" for k
    using that by (simp add: get_def map_of_eq_None_iff [THEN iffD2])
  have a: "desires d = (if truthy (get payload ''desires'') then get payload ''desires'' else JList [])"
    by (simp add: ds py_or_def)
  have b: "''desires'' \<notin> fst ` set payload \<or> \<not> truthy (get payload ''desires'') \<longrightarrow>
      desires d = JList []"
    using absent [of "''desires''"]
    by (cases "''desires'' \<in> fst ` set payload") (auto simp: ds py_or_def)
  have c: "\<forall>xs. get payload ''desires'' = JList xs \<longrightarrow> desires d = JList xs"
    by (auto simp: ds py_or_def)
  have e: "''user_id'' \<notin> fst ` set payload \<or> get payload ''user_id'' = JStr [] \<longrightarrow> user_id d = JNull"
    using absent [of "''user_id''"]
    by (cases "''user_id'' \<in> fst ` set payload") (auto simp: u py_or_def)
  have f: "user_id d = JNull \<or> truthy (user_id d)"
    by (simp add: u py_or_def)
  have g: "user_id d = JNull \<longrightarrow>
      (\<forall>es. \<forall>l\<in>set (premium_suggestions es).
         \<not> (user l = user_id d \<and> question l = question_clicked d))"
    using lead_user_truthy by fastforce
  from p ts a b c e f g show ?thesis by auto
qed

text \<open>
  Claim C10, as amended. Every engagement record that \<^verbatim>\<open>POST /api/engagement\<close> creates
  has the insertion time as its timestamp, never null; its desires are the payload's
  desires unchanged when these are truthy, of whatever type, and the empty list when
  they are absent or falsy, so they are a list whenever the payload gives a list or
  nothing; a \<^verbatim>\<open>user_id\<close> that is absent or the empty string is stored as null, and a
  stored \<^verbatim>\<open>user_id\<close> is null or truthy; a record stored with a null \<^verbatim>\<open>user_id\<close> is in
  no group of the premium suggestions, whatever else the store holds.
\<close>

theorem logged_engagement_fields:
  assumes "log_engagement request_json now new_oid s = (s', Resp status b)"
  shows "\<exists>d payload.
           s' = s\<lparr>eng_col := eng_col s @ [d]\<rparr> \<and>
           status = 200 \<and> b = Json (JObj [(''status'', JStr ''ok'')]) \<and>
           py_or request_json (JObj []) = JObj payload \<and>
           timestamp d = JDate now \<and> timestamp d \<noteq> JNull \<and>
           desires d =
             (if truthy (get payload ''desires'') then get payload ''desires'' else JList []) \<and>
           (''desires'' \<notin> fst ` set payload \<or> \<not> truthy (get payload ''desires'') \<longrightarrow>
              desires d = JList []) \<and>
           (\<forall>xs. get payload ''desires'' = JList xs \<longrightarrow> desires d = JList xs) \<and>
           (''user_id'' \<notin> fst ` set payload \<or> get payload ''user_id'' = JStr [] \<longrightarrow>
              user_id d = JNull) \<and>
           (user_id d = JNull \<or> truthy (user_id d)) \<and>
           (user_id d = JNull \<longrightarrow>
              (\<forall>es. \<forall>l\<in>set (premium_suggestions es).
                 \<not> (user l = user_id d \<and> question l = question_clicked d)))"
proof -
  from assms obtain d where doc: "engagement_doc request_json now new_oid = Inr d"
    and st: "s' = s\<lparr>eng_col := eng_col s @ [d]\<rparr>"
    and r: "status = 200" "b = Json (JObj [(''status'', JStr ''ok'')])"
    by (auto simp: log_engagement_def insert_one_def split: sum.splits option.splits)
  from engagement_doc_invariants [OF doc] st r show ?thesis by blast
qed

theorem logged_engagement_fields_witness:
  "log_engagement request_sample t0 ''e1'' admin_state =
     (admin_state\<lparr>eng_col := [logged_sample]\<rparr>, Resp 200 (Json (JObj [(''status'', JStr ''ok'')]))) \<and>
   (\<exists>d payload.
           admin_state\<lparr>eng_col := [logged_sample]\<rparr> =
             admin_state\<lparr>eng_col := eng_col admin_state @ [d]\<rparr> \<and>
           (200::nat) = 200 \<and>
           Json (JObj [(''status'', JStr ''ok'')]) = Json (JObj [(''status'', JStr ''ok'')]) \<and>
           py_or request_sample (JObj []) = JObj payload \<and>
           timestamp d = JDate t0 \<and> timestamp d \<noteq> JNull \<and>
           desires d =
             (if truthy (get payload ''desires'') then get payload ''desires'' else JList []) \<and>
           (''desires'' \<notin> fst ` set payload \<or> \<not> truthy (get payload ''desires'') \<longrightarrow>
              desires d = JList []) \<and>
           (\<forall>xs. get payload ''desires'' = JList xs \<longrightarrow> desires d = JList xs) \<and>
           (''user_id'' \<notin> fst ` set payload \<or> get payload ''user_id'' = JStr [] \<longrightarrow>
              user_id d = JNull) \<and>
           (user_id d = JNull \<or> truthy (user_id d)) \<and>
           (user_id d = JNull \<longrightarrow>
              (\<forall>es. \<forall>l\<in>set (premium_suggestions es).
                 \<not> (user l = user_id d \<and> question l = question_clicked d))))"
proof -
  have h: "log_engagement request_sample t0 ''e1'' admin_state =
     (admin_state\<lparr>eng_col := [logged_sample]\<rparr>, Resp 200 (Json (JObj [(''status'', JStr ''ok'')])))"
    by (simp add: log_engagement_def engagement_doc_def request_sample_def logged_sample_def
        py_or_def bind_err_def get_def admin_state_def insert_one_def)
  from h logged_engagement_fields [OF h] show ?thesis by (intro conjI)
qed

text \<open>
  Claim C10 as stated fails on the body \<^verbatim>\<open>{"desires": "x"}\<close>: the stored desires are
  the string, not a list.
\<close>

theorem desires_not_list_counterexample:
  "log_engagement (JObj [(''desires'', JStr ''x'')]) t0 ''e1'' admin_state =
     (admin_state\<lparr>eng_col :=
        [\<lparr> oid = ''e1'', user_id = JNull, age = JNull, job = JNull, desires = JStr ''x'',
           question_clicked = JNull, service = JNull, timestamp = JDate t0 \<rparr>]\<rparr>,
      Resp 200 (Json (JObj [(''status'', JStr ''ok'')])))"
  by (simp add: log_engagement_def engagement_doc_def py_or_def bind_err_def get_def
      admin_state_def insert_one_def)

section \<open>Age histogram\<close>

lemma age_fold:
  "foldl age_step [(''<18'', a), (''18-25'', b), (''26-40'', c), (''41-60'', d), (''60+'', f)] es =
     [(''<18'', a + length (filter (age_in (\<lambda>n. n < 18)) es)),
      (''18-25'', b + length (filter (age_in (\<lambda>n. 18 \<le> n \<and> n \<le> 25)) es)),
      (''26-40'', c + length (filter (age_in (\<lambda>n. 26 \<le> n \<and> n \<le> 40)) es)),
      (''41-60'', d + length (filter (age_in (\<lambda>n. 41 \<le> n \<and> n \<le> 60)) es)),
      (''60+'', f + length (filter (age_in (\<lambda>n. 60 < n)) es))]"
proof (induction es arbitrary: a b c d f)
  case Nil
  show ?case by simp
next
  case (Cons e es)
  show ?case
  proof (cases "counted_age e")
    case None
    then have "age_step [(''<18'', a), (''18-25'', b), (''26-40'', c), (''41-60'', d), (''60+'', f)] e
        = [(''<18'', a), (''18-25'', b), (''26-40'', c), (''41-60'', d), (''60+'', f)]"
      by (auto simp: age_step_def age_try_def counted_age_def bind_err_def
          split: if_splits sum.splits)
    with None show ?thesis by (simp add: Cons.IH age_in_def)
  next
    case (Some n)
    then have t: "truthy (age e)" and p: "py_int (age e) = Inr n"
      by (auto simp: counted_age_def split: if_splits sum.splits)
    have "age_step [(''<18'', a), (''18-25'', b), (''26-40'', c), (''41-60'', d), (''60+'', f)] e
        = [(''<18'', a + (if n < 18 then 1 else 0)),
           (''18-25'', b + (if 18 \<le> n \<and> n \<le> 25 then 1 else 0)),
           (''26-40'', c + (if 26 \<le> n \<and> n \<le> 40 then 1 else 0)),
           (''41-60'', d + (if 41 \<le> n \<and> n \<le> 60 then 1 else 0)),
           (''60+'', f + (if 60 < n then 1 else 0))]"
      using t p by (simp add: age_step_def age_try_def bind_err_def)
    with Some show ?thesis by (simp add: Cons.IH age_in_def)
  qed
qed

lemma age_partition:
  "length (filter (age_in (\<lambda>n. n < 18)) es) +
     (length (filter (age_in (\<lambda>n. 18 \<le> n \<and> n \<le> 25)) es) +
     (length (filter (age_in (\<lambda>n. 26 \<le> n \<and> n \<le> 40)) es) +
     (length (filter (age_in (\<lambda>n. 41 \<le> n \<and> n \<le> 60)) es) +
      length (filter (age_in (\<lambda>n. 60 < n)) es)))) =
   length (filter (\<lambda>e. counted_age e \<noteq> None) es)"
  by (induction es) (auto simp: age_in_def split: option.splits)

text \<open>
  Claim C1, as amended. The age histogram counts a record exactly when its age is truthy
  (present, not zero, not empty) and \<^verbatim>\<open>int\<close> converts it; such a record is counted in
  exactly one bucket, by the converted age \<^verbatim>\<open>n\<close>: \<^verbatim>\<open>n < 18\<close> (negative ages too),
  \<^verbatim>\<open>18..25\<close>, \<^verbatim>\<open>26..40\<close>, \<^verbatim>\<open>41..60\<close>, \<^verbatim>\<open>n > 60\<close>. Every other record (age missing,
  zero or otherwise falsy, or not convertible) is left out without an error, and the
  bucket counts add up to the number of counted records.
\<close>

theorem age_groups_counts:
  "age_groups es =
     [(''<18'', length (filter (age_in (\<lambda>n. n < 18)) es)),
      (''18-25'', length (filter (age_in (\<lambda>n. 18 \<le> n \<and> n \<le> 25)) es)),
      (''26-40'', length (filter (age_in (\<lambda>n. 26 \<le> n \<and> n \<le> 40)) es)),
      (''41-60'', length (filter (age_in (\<lambda>n. 41 \<le> n \<and> n \<le> 60)) es)),
      (''60+'', length (filter (age_in (\<lambda>n. 60 < n)) es))] \<and>
   sum_list (map snd (age_groups es)) = length (filter (\<lambda>e. counted_age e \<noteq> None) es)"
proof -
  have g: "age_groups es =
     [(''<18'', length (filter (age_in (\<lambda>n. n < 18)) es)),
      (''18-25'', length (filter (age_in (\<lambda>n. 18 \<le> n \<and> n \<le> 25)) es)),
      (''26-40'', length (filter (age_in (\<lambda>n. 26 \<le> n \<and> n \<le> 40)) es)),
      (''41-60'', length (filter (age_in (\<lambda>n. 41 \<le> n \<and> n \<le> 60)) es)),
      (''60+'', length (filter (age_in (\<lambda>n. 60 < n)) es))]"
    unfolding age_groups_def age_groups_init_def by (simp add: age_fold)
  show ?thesis using g age_partition [of es] by simp
qed

text \<open>
  Claim C1 as stated fails on a record whose age is \<^verbatim>\<open>0\<close>, which the public endpoint
  stores for the body \<^verbatim>\<open>{"age": "0"}\<close>: the age is present, \<^verbatim>\<open>int\<close> converts it and it
  is not negative, yet no bucket counts it.
\<close>

theorem age_zero_counterexample:
  "engagement_doc (JObj [(''age'', JStr ''0'')]) t0 ''e0'' = Inr (blank\<lparr>age := JInt 0\<rparr>) \<and>
   py_int (age (blank\<lparr>age := JInt 0\<rparr>)) = Inr 0 \<and>
   age_groups [blank\<lparr>age := JInt 0\<rparr>] =
     [(''<18'', 0), (''18-25'', 0), (''26-40'', 0), (''41-60'', 0), (''60+'', 0)]"
  by (simp add: age_groups_def age_groups_init_def age_step_def blank_def engagement_doc_def
      py_or_def bind_err_def get_def int_of_str_def int_strip_def int_space_def literal_val_def
      unsigned_val_def digit_of_def)

section \<open>Counting tables\<close>

lemma tally_count_in:
  "tally norm (count_in norm k d) x = tally norm d x + (if norm k = x then 1 else 0)"
  by (induction d) (auto simp: tally_def)

lemma keys_count_in:
  "(\<lambda>p. norm (fst p)) ` set (count_in norm k d) = insert (norm k) ((\<lambda>p. norm (fst p)) ` set d)"
proof (induction d)
  case Nil
  show ?case by simp
next
  case (Cons p d)
  obtain k' c where p: "p = (k', c)" by (cases p)
  show ?case
  proof (cases "norm k = norm k'")
    case True
    with p show ?thesis by simp
  next
    case False
    with p Cons.IH show ?thesis by (simp add: insert_commute)
  qed
qed

lemma distinct_count_in:
  "distinct (map (\<lambda>p. norm (fst p)) d) \<Longrightarrow> distinct (map (\<lambda>p. norm (fst p)) (count_in norm k d))"
proof (induction d)
  case Nil
  show ?case by simp
next
  case (Cons p d)
  obtain k' c where p: "p = (k', c)" by (cases p)
  show ?case
  proof (cases "norm k = norm k'")
    case True
    with Cons.prems p show ?thesis by simp
  next
    case False
    have "norm k' \<notin> (\<lambda>p. norm (fst p)) ` set (count_in norm k d)"
      using Cons.prems p False by (simp add: keys_count_in)
    with Cons p False show ?thesis by simp
  qed
qed

lemma positive_count_in:
  "\<forall>p\<in>set d. 0 < snd p \<Longrightarrow> \<forall>p\<in>set (count_in norm k d). 0 < snd p"
proof (induction d)
  case Nil
  show ?case by simp
next
  case (Cons p d)
  obtain k' c where p: "p = (k', c)" by (cases p)
  from Cons.prems have d: "\<forall>p\<in>set d. 0 < snd p" by simp
  show ?case
  proof (cases "norm k = norm k'")
    case True
    with p d show ?thesis by simp
  next
    case False
    with p Cons.IH [OF d] Cons.prems show ?thesis by simp
  qed
qed

lemma total_count_in: "sum_list (map snd (count_in norm k d)) = Suc (sum_list (map snd d))"
  by (induction d) auto

lemma tally_member:
  "distinct (map (\<lambda>p. norm (fst p)) d) \<Longrightarrow> (k, c) \<in> set d \<Longrightarrow> tally norm d (norm k) = c"
proof (induction d)
  case Nil
  then show ?case by simp
next
  case (Cons p d)
  have none: "norm (fst p) \<notin> (\<lambda>p. norm (fst p)) ` set d" using Cons.prems(1) by simp
  show ?case
  proof (cases "p = (k, c)")
    case True
    have "filter (\<lambda>q. norm (fst q) = norm k) d = []"
      using none True by (force simp: filter_empty_conv)
    with True show ?thesis by (simp add: tally_def)
  next
    case False
    with Cons.prems have m: "(k, c) \<in> set d" by simp
    then have "norm (fst p) \<noteq> norm k" using none by force
    with Cons m show ?thesis by (simp add: tally_def)
  qed
qed

lemma tally_positive:
  "0 < tally norm d x \<Longrightarrow> \<exists>k c. (k, c) \<in> set d \<and> norm k = x"
  by (induction d) (auto simp: tally_def split: if_splits)

lemma fold_count_in:
  "tally norm (foldl (\<lambda>g e. count_in norm (key e) g) g0 es) x =
     tally norm g0 x + length (filter (\<lambda>e. norm (key e) = x) es)"
  by (induction es arbitrary: g0) (auto simp: tally_count_in)

lemma fold_distinct:
  "distinct (map (\<lambda>p. norm (fst p)) g0) \<Longrightarrow>
   distinct (map (\<lambda>p. norm (fst p)) (foldl (\<lambda>g e. count_in norm (key e) g) g0 es))"
  by (induction es arbitrary: g0) (auto simp: distinct_count_in)

lemma fold_positive:
  "\<forall>p\<in>set g0. 0 < snd p \<Longrightarrow> \<forall>p\<in>set (foldl (\<lambda>g e. count_in norm (key e) g) g0 es). 0 < snd p"
proof (induction es arbitrary: g0)
  case Nil
  then show ?case by simp
next
  case (Cons e es)
  have "\<forall>p\<in>set (count_in norm (key e) g0). 0 < snd p"
    by (rule positive_count_in) (rule Cons.prems)
  from Cons.IH [OF this] show ?case by simp
qed

lemma fold_total:
  "sum_list (map snd (foldl (\<lambda>g e. count_in norm (key e) g) g0 es)) =
     sum_list (map snd g0) + length es"
  by (induction es arbitrary: g0) (auto simp: total_count_in)

lemma fold_member:
  "(k, c) \<in> set (foldl (\<lambda>g e. count_in norm (key e) g) [] es) \<Longrightarrow>
     0 < c \<and> c = length (filter (\<lambda>e. norm (key e) = norm k) es)"
proof -
  assume m: "(k, c) \<in> set (foldl (\<lambda>g e. count_in norm (key e) g) [] es)"
  have d: "distinct (map (\<lambda>p. norm (fst p)) (foldl (\<lambda>g e. count_in norm (key e) g) [] es))"
    by (rule fold_distinct) simp
  have "\<forall>p\<in>set (foldl (\<lambda>g e. count_in norm (key e) g) [] es). 0 < snd p"
    by (rule fold_positive) simp
  with m have "0 < c" by force
  moreover have "c = length (filter (\<lambda>e. norm (key e) = norm k) es)"
    using tally_member [OF d m] fold_count_in [of norm key "[]" es "norm k"]
    by (simp add: tally_def)
  ultimately show ?thesis by simp
qed

lemma fold_present:
  "0 < length (filter (\<lambda>e. norm (key e) = x) es) \<Longrightarrow>
   \<exists>k. norm k = x \<and> (k, length (filter (\<lambda>e. norm (key e) = x) es))
       \<in> set (foldl (\<lambda>g e. count_in norm (key e) g) [] es)"
proof -
  assume pos: "0 < length (filter (\<lambda>e. norm (key e) = x) es)"
  let ?g = "foldl (\<lambda>g e. count_in norm (key e) g) [] es"
  have "0 < tally norm ?g x"
    using pos fold_count_in [of norm key "[]" es x] by (simp add: tally_def)
  from tally_positive [OF this] obtain k c where m: "(k, c) \<in> set ?g" and k: "norm k = x"
    by blast
  from fold_member [OF m] k have "c = length (filter (\<lambda>e. norm (key e) = x) es)" by simp
  with m k show ?thesis by blast
qed

section \<open>Premium suggestions\<close>

lemma group_stage_member:
  "((u, q), c) \<in> set (group_stage es) \<longleftrightarrow>
     0 < c \<and> c = length (filter (\<lambda>e. user_id e = u \<and> question_clicked e = q) es)"
proof
  assume "((u, q), c) \<in> set (group_stage es)"
  then have "((u, q), c) \<in> set (foldl (\<lambda>g e. count_in (\<lambda>x. x) (user_id e, question_clicked e) g) [] es)"
    by (simp add: group_stage_def group_bump_def)
  from fold_member [OF this]
  have "0 < c \<and> c = length (filter (\<lambda>e. (user_id e, question_clicked e) = (u, q)) es)" .
  then show "0 < c \<and> c = length (filter (\<lambda>e. user_id e = u \<and> question_clicked e = q) es)"
    unfolding prod.inject .
next
  assume a: "0 < c \<and> c = length (filter (\<lambda>e. user_id e = u \<and> question_clicked e = q) es)"
  then have ceq: "c = length (filter (\<lambda>e. user_id e = u \<and> question_clicked e = q) es)"
    and cpos: "0 < c" by blast+
  have len: "length (filter (\<lambda>e. (user_id e, question_clicked e) = (u, q)) es) = c"
    unfolding prod.inject using ceq by simp
  with cpos have "0 < length (filter (\<lambda>e. (user_id e, question_clicked e) = (u, q)) es)"
    by simp
  with fold_present [of "\<lambda>x. x" "\<lambda>e. (user_id e, question_clicked e)" "(u, q)" es]
  have "((u, q), length (filter (\<lambda>e. (user_id e, question_clicked e) = (u, q)) es))
      \<in> set (foldl (\<lambda>g e. count_in (\<lambda>x. x) (user_id e, question_clicked e) g) [] es)"
    by blast
  then show "((u, q), c) \<in> set (group_stage es)"
    unfolding len by (simp add: group_stage_def group_bump_def)
qed

lemma group_stage_distinct: "distinct (map fst (group_stage es))"
  using fold_distinct [of "\<lambda>x. x" "[]" "\<lambda>e. (user_id e, question_clicked e)" es]
  by (simp add: group_stage_def group_bump_def)

lemma premium_suggestions_set:
  "set (premium_suggestions es) =
     {\<lparr> user = u, question = q, count = c \<rparr> | u q c.
        truthy u \<and> 2 \<le> c \<and> c = length (filter (\<lambda>e. user_id e = u \<and> question_clicked e = q) es)} \<and>
   distinct (premium_suggestions es)"
proof
  show "set (premium_suggestions es) =
     {\<lparr> user = u, question = q, count = c \<rparr> | u q c.
        truthy u \<and> 2 \<le> c \<and> c = length (filter (\<lambda>e. user_id e = u \<and> question_clicked e = q) es)}"
    (is "?L = ?R")
  proof (rule set_eqI)
    fix l
    show "l \<in> ?L \<longleftrightarrow> l \<in> ?R"
    proof
      assume "l \<in> ?L"
      then obtain r where r: "r \<in> set (group_stage es)" "2 \<le> snd r" "truthy (fst (fst r))"
        and l: "l = \<lparr> user = fst (fst r), question = snd (fst r), count = snd r \<rparr>"
        by (auto simp: premium_suggestions_def repeated_def)
      obtain u q c where rr: "r = ((u, q), c)" by (cases r) auto
      with r group_stage_member [of u q c es] l show "l \<in> ?R" by auto
    next
      assume "l \<in> ?R"
      then obtain u q c where l: "l = \<lparr> user = u, question = q, count = c \<rparr>"
        and t: "truthy u" and c2: "2 \<le> c"
        and c: "c = length (filter (\<lambda>e. user_id e = u \<and> question_clicked e = q) es)"
        by blast
      have "((u, q), c) \<in> set (group_stage es)"
        using group_stage_member [of u q c es] c c2 by auto
      with t c2 l show "l \<in> ?L"
        by (force simp: premium_suggestions_def repeated_def)
    qed
  qed
next
  have inj: "inj_on (\<lambda>r. \<lparr> user = fst (fst r), question = snd (fst r), count = snd r \<rparr>) A" for A :: "((jval \<times> jval) \<times> nat) set"
    by (rule inj_onI) (auto simp: prod_eq_iff)
  have "distinct (group_stage es)" using group_stage_distinct distinct_map by blast
  then show "distinct (premium_suggestions es)"
    by (simp add: premium_suggestions_def repeated_def distinct_map inj)
qed

lemma premium_example:
  "map (\<lambda>e. (user_id e, question_clicked e)) (eng_col (run sort_desc premium_requests admin_state)) =
     [(JStr ''A'', JStr ''Q1''), (JStr ''A'', JStr ''Q1''), (JStr ''A'', JStr ''Q2''),
      (JNull, JStr ''Q1''), (JNull, JStr ''Q1'')] \<and>
   premium_suggestions (eng_col (run sort_desc premium_requests admin_state)) =
     [\<lparr> user = JStr ''A'', question = JStr ''Q1'', count = 2 \<rparr>]"
  by (simp add: premium_requests_def admin_state_def log_engagement_def engagement_doc_def
      insert_one_def py_or_def bind_err_def get_def t0_def
      premium_suggestions_def repeated_def group_stage_def group_bump_def)

text \<open>The engagements change at line 63 only, by one record at the end.\<close>

lemma admin_route_eng_col: "eng_col (fst (admin_route sort_desc req s)) = eng_col s"
proof (cases req)
  case (Services m)
  show ?thesis
  proof (cases m)
    case GET
    with Services show ?thesis by (simp add: admin_required_def)
  next
    case (POST v)
    with Services show ?thesis
      by (cases v) (simp_all add: admin_required_def Let_def split: option.splits)
  qed
qed (simp_all add: admin_required_def manage_page_fn_def admin_logout_fn_def admin_insights_def
    admin_insights_fn_def admin_engagements_fn_def export_csv_fn_def delete_service_fn_def
    split: sum.splits)

lemma log_engagement_eng_col:
  "eng_col (fst (log_engagement request_json now new_oid s)) = eng_col s \<or>
   (\<exists>d. engagement_doc request_json now new_oid = Inr d \<and>
        eng_col (fst (log_engagement request_json now new_oid s)) = eng_col s @ [d])"
  by (simp add: log_engagement_def insert_one_def split: sum.splits option.splits)

lemma engagement_doc_user:
  "engagement_doc request_json now new_oid = Inr d \<Longrightarrow> user_id d = JNull \<or> truthy (user_id d)"
  using engagement_doc_invariants [of request_json now new_oid d] by blast

lemma run_user_ids:
  "\<forall>e\<in>set (eng_col s). user_id e = JNull \<or> truthy (user_id e) \<Longrightarrow>
   \<forall>e\<in>set (eng_col (run sort_desc reqs s)). user_id e = JNull \<or> truthy (user_id e)"
proof (induction reqs arbitrary: s)
  case Nil
  then show ?case by simp
next
  case (Cons r rs)
  have "\<forall>e\<in>set (eng_col s'). user_id e = JNull \<or> truthy (user_id e) \<Longrightarrow>
      \<forall>e\<in>set (eng_col (run sort_desc rs s')). user_id e = JNull \<or> truthy (user_id e)" for s'
    by (rule Cons.IH)
  note step = this
  show ?case
  proof (cases r)
    case (Post request_json now new_oid)
    let ?s = "fst (log_engagement request_json now new_oid s)"
    have "\<forall>e\<in>set (eng_col ?s). user_id e = JNull \<or> truthy (user_id e)"
      using log_engagement_eng_col [of request_json now new_oid s] Cons.prems
        engagement_doc_user [of request_json now new_oid]
      by auto
    from step [OF this] Post show ?thesis by simp
  next
    case (Login username)
    have "eng_col (admin_login_ok username s) = eng_col s" by (simp add: admin_login_ok_def)
    with Cons.prems have "\<forall>e\<in>set (eng_col (admin_login_ok username s)).
        user_id e = JNull \<or> truthy (user_id e)" by simp
    from step [OF this] Login show ?thesis by simp
  next
    case (Admin req)
    from Cons.prems have "\<forall>e\<in>set (eng_col (fst (admin_route sort_desc req s))).
        user_id e = JNull \<or> truthy (user_id e)" by (simp add: admin_route_eng_col)
    from step [OF this] Admin show ?thesis by simp
  qed
qed

text \<open>
  Claim C2. On the engagements that the program has stored, starting from an empty
  collection and after any sequence of requests, the premium suggestions are exactly the
  pairs of \<^verbatim>\<open>user_id\<close> and \<^verbatim>\<open>question_clicked\<close> that two or more engagements share and
  whose \<^verbatim>\<open>user_id\<close> is not null, each once, with the number of its engagements as
  count; a group whose \<^verbatim>\<open>user_id\<close> is null gives no suggestion. Five logged engagements
  that are stored as (A, Q1), (A, Q1), (A, Q2), (None, Q1), (None, Q1) give the single
  suggestion of user A and question Q1 with count 2.
\<close>

theorem premium_suggestions_exact:
  assumes empty: "eng_col s = []"
  shows "set (premium_suggestions (eng_col (run sort_desc reqs s))) =
     {\<lparr> user = u, question = q, count = c \<rparr> | u q c.
        u \<noteq> JNull \<and> 2 \<le> c \<and>
        c = length (filter (\<lambda>e. user_id e = u \<and> question_clicked e = q)
              (eng_col (run sort_desc reqs s)))} \<and>
   distinct (premium_suggestions (eng_col (run sort_desc reqs s))) \<and>
   map (\<lambda>e. (user_id e, question_clicked e))
       (eng_col (run sort_desc premium_requests admin_state)) =
     [(JStr ''A'', JStr ''Q1''), (JStr ''A'', JStr ''Q1''), (JStr ''A'', JStr ''Q2''),
      (JNull, JStr ''Q1''), (JNull, JStr ''Q1'')] \<and>
   premium_suggestions (eng_col (run sort_desc premium_requests admin_state)) =
     [\<lparr> user = JStr ''A'', question = JStr ''Q1'', count = 2 \<rparr>]"
proof -
  define es where "es = eng_col (run sort_desc reqs s)"
  have inv: "\<forall>e\<in>set es. user_id e = JNull \<or> truthy (user_id e)"
    unfolding es_def using empty by (intro run_user_ids) simp
  have key: "truthy u \<longleftrightarrow> u \<noteq> JNull"
    if "2 \<le> length (filter (\<lambda>e. user_id e = u \<and> question_clicked e = q) es)" for u q
  proof -
    from that have "filter (\<lambda>e. user_id e = u \<and> question_clicked e = q) es \<noteq> []" by auto
    then obtain e where "e \<in> set es" "user_id e = u" by (auto simp: filter_empty_conv)
    with inv show ?thesis by auto
  qed
  have "{\<lparr> user = u, question = q, count = c \<rparr> | u q c.
        truthy u \<and> 2 \<le> c \<and>
        c = length (filter (\<lambda>e. user_id e = u \<and> question_clicked e = q) es)} =
     {\<lparr> user = u, question = q, count = c \<rparr> | u q c.
        u \<noteq> JNull \<and> 2 \<le> c \<and>
        c = length (filter (\<lambda>e. user_id e = u \<and> question_clicked e = q) es)}"
    using key by blast
  with premium_suggestions_set [of es]
  have a: "set (premium_suggestions es) =
     {\<lparr> user = u, question = q, count = c \<rparr> | u q c.
        u \<noteq> JNull \<and> 2 \<le> c \<and>
        c = length (filter (\<lambda>e. user_id e = u \<and> question_clicked e = q) es)}"
    and b: "distinct (premium_suggestions es)"
    by simp_all
  note ex = premium_example [of sort_desc]
  from a b ex [THEN conjunct1] ex [THEN conjunct2] show ?thesis
    unfolding es_def by (intro conjI)
qed

theorem premium_suggestions_exact_witness:
  "eng_col admin_state = [] \<and>
   (set (premium_suggestions (eng_col (run (\<lambda>es. es) premium_requests admin_state))) =
     {\<lparr> user = u, question = q, count = c \<rparr> | u q c.
        u \<noteq> JNull \<and> 2 \<le> c \<and>
        c = length (filter (\<lambda>e. user_id e = u \<and> question_clicked e = q)
              (eng_col (run (\<lambda>es. es) premium_requests admin_state)))} \<and>
   distinct (premium_suggestions (eng_col (run (\<lambda>es. es) premium_requests admin_state))) \<and>
   map (\<lambda>e. (user_id e, question_clicked e))
       (eng_col (run (\<lambda>es. es) premium_requests admin_state)) =
     [(JStr ''A'', JStr ''Q1''), (JStr ''A'', JStr ''Q1''), (JStr ''A'', JStr ''Q2''),
      (JNull, JStr ''Q1''), (JNull, JStr ''Q1'')] \<and>
   premium_suggestions (eng_col (run (\<lambda>es. es) premium_requests admin_state)) =
     [\<lparr> user = JStr ''A'', question = JStr ''Q1'', count = 2 \<rparr>])"
proof -
  have h: "eng_col admin_state = []" by (simp add: admin_state_def)
  from h premium_suggestions_exact [OF h, of "\<lambda>es. es" premium_requests]
  show ?thesis by (rule conjI)
qed

section \<open>Job histogram\<close>

lemma strip_Unknown: "strip ''Unknown'' = ''Unknown''"
  by (simp add: strip_def isspace_def)

lemma job_key_str:
  "job e = JNull \<or> (\<exists>s. job e = JStr s) \<Longrightarrow> job_key e = Inr (JStr (job_name e))"
  by (auto simp: job_key_def job_name_def py_or_def strip_Unknown)

lemma jobs_loop_fold:
  "\<forall>e\<in>set es. job_key e = Inr (JStr (job_name e)) \<Longrightarrow>
   jobs_loop jobs es = Inr (foldl (\<lambda>d e. count_in py_key (JStr (job_name e)) d) jobs es)"
  by (induction es arbitrary: jobs) (simp_all add: bind_err_def bump_def dict_bump_def)

lemma fst_count_in: "fst ` set (count_in norm k d) \<subseteq> insert k (fst ` set d)"
proof (induction d)
  case Nil
  show ?case by simp
next
  case (Cons p d)
  obtain k' c where p: "p = (k', c)" by (cases p)
  show ?case
  proof (cases "norm k = norm k'")
    case True
    with p show ?thesis by auto
  next
    case False
    with p Cons.IH show ?thesis by auto
  qed
qed

lemma fold_keys:
  "fst ` set (foldl (\<lambda>g e. count_in norm (key e) g) g0 es) \<subseteq> fst ` set g0 \<union> key ` set es"
proof (induction es arbitrary: g0)
  case Nil
  show ?case by simp
next
  case (Cons e es)
  have "fst ` set (foldl (\<lambda>g e. count_in norm (key e) g) (count_in norm (key e) g0) es)
      \<subseteq> fst ` set (count_in norm (key e) g0) \<union> key ` set es"
    by (rule Cons.IH)
  also have "\<dots> \<subseteq> insert (key e) (fst ` set g0) \<union> key ` set es"
    using fst_count_in [of norm "key e" g0] by blast
  finally show ?case by auto
qed

text \<open>
  Claim C9, as amended. On a set of engagements whose jobs are strings or absent, the
  job histogram is a table of distinct strings in which a string has an entry exactly
  when some engagement has it as job name, with the number of those engagements as
  count; the job name of an engagement is its trimmed job string, and the literal
  \<^verbatim>\<open>Unknown\<close> when the job is absent, null or the empty string. The counts add up to the
  number of engagements: none is left out.
\<close>

theorem jobs_histogram:
  assumes typed: "\<forall>e\<in>set es. job e = JNull \<or> (\<exists>s. job e = JStr s)"
  shows "\<exists>jobs. jobs_loop [] es = Inr jobs \<and> distinct (map fst jobs) \<and>
           (\<forall>k\<in>fst ` set jobs. \<exists>j. k = JStr j) \<and>
           (\<forall>j c. (JStr j, c) \<in> set jobs \<longleftrightarrow>
                    0 < c \<and> c = length (filter (\<lambda>e. job_name e = j) es)) \<and>
           sum_list (map snd jobs) = length es"
proof -
  let ?key = "\<lambda>e. JStr (job_name e)"
  let ?jobs = "foldl (\<lambda>d e. count_in py_key (?key e) d) [] es"
  have run: "jobs_loop [] es = Inr ?jobs"
    using typed by (intro jobs_loop_fold ballI job_key_str) blast
  have dn: "distinct (map (\<lambda>p. py_key (fst p)) ?jobs)"
    by (rule fold_distinct) simp
  have "map (\<lambda>p. py_key (fst p)) ?jobs = map py_key (map fst ?jobs)" by simp
  with dn have d: "distinct (map fst ?jobs)" by (simp only: distinct_map)
  have keys: "\<forall>k\<in>fst ` set ?jobs. \<exists>j. k = JStr j"
    using fold_keys [of py_key ?key "[]" es] by auto
  have mem: "(JStr j, c) \<in> set ?jobs \<longleftrightarrow> 0 < c \<and> c = length (filter (\<lambda>e. job_name e = j) es)"
    for j c
  proof
    assume "(JStr j, c) \<in> set ?jobs"
    from fold_member [OF this]
    have "0 < c \<and> c = length (filter (\<lambda>e. py_key (JStr (job_name e)) = py_key (JStr j)) es)" .
    then show "0 < c \<and> c = length (filter (\<lambda>e. job_name e = j) es)"
      unfolding py_key.simps jval.inject .
  next
    assume a: "0 < c \<and> c = length (filter (\<lambda>e. job_name e = j) es)"
    then have cpos: "0 < c" and ceq: "length (filter (\<lambda>e. job_name e = j) es) = c" by blast+
    from cpos ceq have "0 < length (filter (\<lambda>e. py_key (?key e) = JStr j) es)" by simp
    with fold_present [of py_key ?key "JStr j" es]
    obtain k where k: "py_key k = JStr j"
      and m: "(k, length (filter (\<lambda>e. py_key (?key e) = JStr j) es)) \<in> set ?jobs"
      by blast
    from m keys obtain j' where "k = JStr j'" by force
    with k have "k = JStr j" by simp
    with m ceq show "(JStr j, c) \<in> set ?jobs" by simp
  qed
  have tot: "sum_list (map snd ?jobs) = length es"
    using fold_total [of py_key ?key "[]" es] by simp
  from run d keys mem tot show ?thesis by blast
qed

theorem jobs_histogram_witness:
  "\<exists>jobs. jobs_loop [] jobs_sample = Inr jobs \<and> distinct (map fst jobs) \<and>
           (\<forall>k\<in>fst ` set jobs. \<exists>j. k = JStr j) \<and>
           (\<forall>j c. (JStr j, c) \<in> set jobs \<longleftrightarrow>
                    0 < c \<and> c = length (filter (\<lambda>e. job_name e = j) jobs_sample)) \<and>
           sum_list (map snd jobs) = length jobs_sample"
proof -
  have "\<forall>e\<in>set jobs_sample. job e = JNull \<or> (\<exists>s. job e = JStr s)"
    by (simp add: jobs_sample_def blank_def)
  from jobs_histogram [OF this] show ?thesis .
qed

text \<open>
  Claim C9 as stated fails on an engagement whose job is the empty string, which the
  public endpoint stores for the body \<^verbatim>\<open>{"job": ""}\<close>: the job is present and its
  trimmed string is empty, but the record is counted under \<^verbatim>\<open>Unknown\<close>.
\<close>

theorem jobs_empty_counterexample:
  "engagement_doc (JObj [(''job'', JStr [])]) t0 ''e0'' = Inr (blank\<lparr>job := JStr []\<rparr>) \<and>
   strip [] = [] \<and>
   jobs_loop [] [blank\<lparr>job := JStr []\<rparr>] = Inr [(JStr ''Unknown'', 1)]"
  by (simp add: job_key_def py_or_def blank_def bind_err_def bump_def dict_bump_def
      engagement_doc_def get_def strip_def isspace_def)

section \<open>The report as a whole\<close>

text \<open>
  Claim C3, at the input where the code departs from it: after the public endpoint has
  logged the body \<^verbatim>\<open>{"job": 5}\<close>, the insights of a logged-in admin end in
  \<^verbatim>\<open>AttributeError\<close>, raised by \<^verbatim>\<open>.strip()\<close> on the number in the job loop, which
  has no \<^verbatim>\<open>try\<close> around it.
\<close>

theorem insights_non_string_job:
  "snd (admin_insights (fst (log_engagement (JObj [(''job'', JInt 5)]) t0 ''e1'' admin_state))) =
     Raised AttributeError"
  by (simp add: admin_insights_def admin_required_def admin_insights_fn_def insights_def
      log_engagement_def engagement_doc_def admin_state_def get_def py_or_def bind_err_def
      job_key_def insert_one_def)

text \<open>
  The report carries the tables of the loops: the histograms and suggestions of the
  sections above are the ones the insights route answers with.
\<close>

lemma insights_fields:
  "insights es = Inr r \<Longrightarrow>
   r_age_groups r = age_groups es \<and> jobs_loop [] es = Inr (r_jobs r) \<and>
   r_premium_suggestions r = premium_suggestions es"
  by (auto simp: insights_def bind_err_def split: sum.splits)

text \<open>
  What does hold of the report as a whole: it is produced, whatever the ages are, when
  the jobs are strings or absent, the services and questions are hashable values or
  absent, and the desires are absent or lists of hashable values.
\<close>

lemma desires_loop_ok: "\<forall>d\<in>set ds. hashable d \<Longrightarrow> \<exists>t. desires_loop dsr ds = Inr t"
  by (induction ds arbitrary: dsr) (simp_all add: bind_err_def bump_def)

lemma services_loop_ok:
  "\<forall>e\<in>set es. hashable (service e) \<and> hashable (question_clicked e) \<and>
      (desires e = JNull \<or> (\<exists>ds. desires e = JList ds \<and> (\<forall>d\<in>set ds. hashable d))) \<Longrightarrow>
   \<exists>t. services_loop tabs es = Inr t"
proof (induction es arbitrary: tabs)
  case Nil
  show ?case by (cases tabs) simp
next
  case (Cons e es)
  obtain sv qs dsr where tabs: "tabs = (sv, qs, dsr)" by (rule prod_cases3)
  from Cons.prems have hs: "hashable (py_or (service e) (JStr ''Unknown''))"
    and hq: "hashable (py_or (question_clicked e) (JStr ''Unknown''))"
    by (simp_all add: py_or_def)
  from Cons.prems
  have "desires e = JNull \<or> (\<exists>ds. desires e = JList ds \<and> (\<forall>d\<in>set ds. hashable d))"
    by simp
  then have "\<exists>items. py_iter (py_or (desires e) (JList [])) = Inr items \<and>
      (\<forall>d\<in>set items. hashable d)"
  proof (elim disjE exE conjE)
    assume "desires e = JNull"
    then show ?thesis by (simp add: py_or_def)
  next
    fix ds
    assume "desires e = JList ds" "\<forall>d\<in>set ds. hashable d"
    then show ?thesis by (cases "ds = []") (simp_all add: py_or_def)
  qed
  then obtain items where it: "py_iter (py_or (desires e) (JList [])) = Inr items"
    and hi: "\<forall>d\<in>set items. hashable d"
    by blast
  from desires_loop_ok [OF hi] obtain dsr' where dl: "desires_loop dsr items = Inr dsr'" by blast
  from Cons.prems have rest: "\<forall>e\<in>set es. hashable (service e) \<and> hashable (question_clicked e) \<and>
      (desires e = JNull \<or> (\<exists>ds. desires e = JList ds \<and> (\<forall>d\<in>set ds. hashable d)))"
    by simp
  from Cons.IH [OF rest] show ?case
    using hs hq it dl by (simp add: tabs bind_err_def bump_def Let_def)
qed


lemma insights_total_on_typed:
  assumes "\<forall>e\<in>set es. (job e = JNull \<or> (\<exists>s. job e = JStr s)) \<and>
      hashable (service e) \<and> hashable (question_clicked e) \<and>
      (desires e = JNull \<or> (\<exists>ds. desires e = JList ds \<and> (\<forall>d\<in>set ds. hashable d)))"
  shows "\<exists>r. insights es = Inr r"
proof -
  from assms have "\<forall>e\<in>set es. job e = JNull \<or> (\<exists>s. job e = JStr s)" by blast
  then have "\<forall>e\<in>set es. job_key e = Inr (JStr (job_name e))" by (blast intro: job_key_str)
  from jobs_loop_fold [OF this] obtain jobs where j: "jobs_loop [] es = Inr jobs" by blast
  from assms have "\<forall>e\<in>set es. hashable (service e) \<and> hashable (question_clicked e) \<and>
      (desires e = JNull \<or> (\<exists>ds. desires e = JList ds \<and> (\<forall>d\<in>set ds. hashable d)))"
    by blast
  from services_loop_ok [OF this] obtain tabs where t: "services_loop ([], [], []) es = Inr tabs"
    by blast
  from j t show ?thesis by (simp add: insights_def bind_err_def)
qed

section \<open>CSV export\<close>

lemma digit_char: "n < 10 \<Longrightarrow> digit_of (''0123456789'' ! n) \<noteq> None"
proof -
  assume "n < 10"
  then have "n \<in> set [0..<10]" by simp
  moreover have "list_all (\<lambda>k. digit_of (''0123456789'' ! k) \<noteq> None) [0..<10]"
    by code_simp
  ultimately show ?thesis unfolding list_all_iff by blast
qed

lemma dec_digits: "\<forall>c\<in>set (dec n). digit_of c \<noteq> None"
proof (induction n rule: dec.induct)
  case (1 n)
  show ?case
  proof (cases "n < 10")
    case True
    then have "dec n = [''0123456789'' ! n]" by (subst dec.simps) simp
    with digit_char [OF True] show ?thesis by simp
  next
    case False
    then have d: "dec n = dec (n div 10) @ [''0123456789'' ! (n mod 10)]"
      by (subst dec.simps) simp
    have "digit_of (''0123456789'' ! (n mod 10)) \<noteq> None" by (rule digit_char) simp
    with "1.IH" [OF False] show ?thesis unfolding d by simp
  qed
qed

lemma dec_length: "n < 10 ^ Suc w \<Longrightarrow> length (dec n) \<le> Suc w"
proof (induction w arbitrary: n)
  case 0
  then show ?case by (subst dec.simps) simp
next
  case (Suc w)
  show ?case
  proof (cases "n < 10")
    case True
    then show ?thesis by (subst dec.simps) simp
  next
    case False
    from Suc.prems have "n div 10 < 10 ^ Suc w" by simp
    from Suc.IH [OF this] False show ?thesis by (subst dec.simps) simp
  qed
qed

lemma digit_zero: "digit_of CHR ''0'' \<noteq> None"
  by (simp add: digit_of_def)

lemma zpad_digits:
  assumes "n < 10 ^ Suc w"
  shows "length (zpad (Suc w) n) = Suc w \<and> (\<forall>c\<in>set (zpad (Suc w) n). digit_of c \<noteq> None)"
proof -
  have "length (zpad (Suc w) n) = Suc w"
    using dec_length [OF assms] by (simp add: zpad_def)
  moreover have "\<forall>c\<in>set (zpad (Suc w) n). digit_of c \<noteq> None"
    using dec_digits [of n] digit_zero by (auto simp: zpad_def)
  ultimately show ?thesis by simp
qed

lemma zpad2:
  assumes "n < 100"
  shows "\<exists>a b. zpad 2 n = [a, b] \<and> digit_of a \<noteq> None \<and> digit_of b \<noteq> None"
proof -
  from zpad_digits [of n 1] assms
  have l: "length (zpad 2 n) = 2" and d: "\<forall>c\<in>set (zpad 2 n). digit_of c \<noteq> None"
    by (simp_all add: numeral_2_eq_2)
  from l obtain a b where "zpad 2 n = [a, b]"
    by (auto simp: length_Suc_conv numeral_2_eq_2)
  with d show ?thesis by simp
qed

lemma zpad4:
  assumes "n < 10000"
  shows "\<exists>a b c d. zpad 4 n = [a, b, c, d] \<and> digit_of a \<noteq> None \<and> digit_of b \<noteq> None \<and>
           digit_of c \<noteq> None \<and> digit_of d \<noteq> None"
proof -
  from zpad_digits [of n 3] assms
  have l: "length (zpad 4 n) = 4" and d: "\<forall>c\<in>set (zpad 4 n). digit_of c \<noteq> None"
    by simp_all
  from l obtain a b c d' where "zpad 4 n = [a, b, c, d']"
    by (auto simp: length_Suc_conv eval_nat_numeral)
  with d show ?thesis by simp
qed

lemma zpad6:
  assumes "n < 1000000"
  shows "\<exists>a b c d e f. zpad 6 n = [a, b, c, d, e, f] \<and> digit_of a \<noteq> None \<and>
           digit_of b \<noteq> None \<and> digit_of c \<noteq> None \<and> digit_of d \<noteq> None \<and>
           digit_of e \<noteq> None \<and> digit_of f \<noteq> None"
proof -
  from zpad_digits [of n 5] assms
  have l: "length (zpad 6 n) = 6" and d: "\<forall>c\<in>set (zpad 6 n). digit_of c \<noteq> None"
    by simp_all
  from l obtain a b c d' e f where "zpad 6 n = [a, b, c, d', e, f]"
    by (auto simp: length_Suc_conv eval_nat_numeral)
  with d show ?thesis by simp
qed

lemma isoformat_shape:
  assumes v: "valid_datetime t"
  shows "iso_shape (isoformat t)"
proof -
  from v have r: "year t < 10000" "month t < 100" "day t < 100" "hour t < 100" "minute t < 100"
      "second t < 100" "microsecond t < 1000000"
    by (simp_all add: valid_datetime_def)
  from zpad4 [OF r(1)] obtain y1 y2 y3 y4 where y: "zpad 4 (year t) = [y1, y2, y3, y4]"
    and yd: "digit_of y1 \<noteq> None" "digit_of y2 \<noteq> None" "digit_of y3 \<noteq> None" "digit_of y4 \<noteq> None"
    by blast
  from zpad2 [OF r(2)] obtain m1 m2 where m: "zpad 2 (month t) = [m1, m2]"
    and md: "digit_of m1 \<noteq> None" "digit_of m2 \<noteq> None" by blast
  from zpad2 [OF r(3)] obtain d1 d2 where d: "zpad 2 (day t) = [d1, d2]"
    and dd: "digit_of d1 \<noteq> None" "digit_of d2 \<noteq> None" by blast
  from zpad2 [OF r(4)] obtain h1 h2 where h: "zpad 2 (hour t) = [h1, h2]"
    and hd: "digit_of h1 \<noteq> None" "digit_of h2 \<noteq> None" by blast
  from zpad2 [OF r(5)] obtain i1 i2 where i: "zpad 2 (minute t) = [i1, i2]"
    and id: "digit_of i1 \<noteq> None" "digit_of i2 \<noteq> None" by blast
  from zpad2 [OF r(6)] obtain s1 s2 where s: "zpad 2 (second t) = [s1, s2]"
    and sd: "digit_of s1 \<noteq> None" "digit_of s2 \<noteq> None" by blast
  from zpad6 [OF r(7)] obtain u1 u2 u3 u4 u5 u6
    where u: "zpad 6 (microsecond t) = [u1, u2, u3, u4, u5, u6]"
    and ud: "digit_of u1 \<noteq> None" "digit_of u2 \<noteq> None" "digit_of u3 \<noteq> None"
      "digit_of u4 \<noteq> None" "digit_of u5 \<noteq> None" "digit_of u6 \<noteq> None" by blast
  show ?thesis
  proof (cases "microsecond t = 0")
    case True
    then have "isoformat t = [y1, y2, y3, y4, CHR ''-'', m1, m2, CHR ''-'', d1, d2, CHR ''T'',
        h1, h2, CHR '':'', i1, i2, CHR '':'', s1, s2]"
      by (simp add: isoformat_def y m d h i s)
    moreover have "matches ''dddd-dd-ddTdd:dd:dd'' [y1, y2, y3, y4, CHR ''-'', m1, m2, CHR ''-'', d1, d2, CHR ''T'',
        h1, h2, CHR '':'', i1, i2, CHR '':'', s1, s2]"
      using yd md dd hd id sd by simp
    ultimately have "matches ''dddd-dd-ddTdd:dd:dd'' (isoformat t)" by (simp only:)
    then show ?thesis unfolding iso_shape_def by (rule disjI1)
  next
    case False
    then have "isoformat t = [y1, y2, y3, y4, CHR ''-'', m1, m2, CHR ''-'', d1, d2, CHR ''T'',
        h1, h2, CHR '':'', i1, i2, CHR '':'', s1, s2, CHR ''.'', u1, u2, u3, u4, u5, u6]"
      by (simp add: isoformat_def y m d h i s u)
    moreover have "matches ''dddd-dd-ddTdd:dd:dd.dddddd'' [y1, y2, y3, y4, CHR ''-'', m1, m2, CHR ''-'', d1, d2, CHR ''T'',
        h1, h2, CHR '':'', i1, i2, CHR '':'', s1, s2, CHR ''.'', u1, u2, u3, u4, u5, u6]"
      using yd md dd hd id sd ud by simp
    ultimately have "matches ''dddd-dd-ddTdd:dd:dd.dddddd'' (isoformat t)" by (simp only:)
    then show ?thesis unfolding iso_shape_def by (rule disjI2)
  qed
qed

lemma strs_JStr: "strs (map JStr ds) = Inr ds"
  by (induction ds) (simp_all add: bind_err_def)

lemma desire_strs_JStr: "desire_strs (JList (map JStr ds)) = ds"
  by (simp add: desire_strs_def comp_def)

lemma desire_strs_JNull: "desire_strs JNull = []"
  by (simp add: desire_strs_def)

lemma desire_strs_Nil: "desire_strs (JList []) = []"
  by (simp add: desire_strs_def)

lemma csv_row_typed:
  assumes "desires e = JNull \<or> (\<exists>ds. desires e = JList (map JStr ds))"
    and "timestamp e = JNull \<or> (\<exists>t. timestamp e = JDate t)"
  shows "csv_row e = Inr (flat_row e)"
proof -
  have d: "py_join '','' (py_or (desires e) (JList [])) = Inr (join '','' (desire_strs (desires e)))"
    using assms(1)
    by (auto simp: py_join_def py_or_def bind_err_def strs_JStr desire_strs_JStr desire_strs_JNull
        desire_strs_Nil)
  from assms(2) show ?thesis
    by (auto simp: csv_row_def d bind_err_def flat_row_def)
qed

lemma csv_rows_typed:
  "\<forall>e\<in>set es. csv_row e = Inr (flat_row e) \<Longrightarrow> csv_rows es = Inr (map flat_row es)"
  by (induction es) (simp_all add: bind_err_def)

text \<open>
  On engagements whose desires are absent or a list of strings and whose timestamp is
  absent or a valid \<^verbatim>\<open>datetime\<close>, the rows given to the writer are one for each
  engagement in the column order of the header; the desire cell is the desires joined
  with commas, the timestamp cell is empty for an absent timestamp and the ISO-8601 text
  for a present one.
\<close>

lemma csv_rows_cells:
  assumes typed: "\<forall>e\<in>set es.
      (desires e = JNull \<or> (\<exists>ds. desires e = JList (map JStr ds))) \<and>
      (timestamp e = JNull \<or> (\<exists>t. timestamp e = JDate t \<and> valid_datetime t))"
  shows "csv_rows es = Inr (map flat_row es) \<and>
         (\<forall>e\<in>set es.
            (\<forall>ds. desires e = JList (map JStr ds) \<longrightarrow> flat_row e ! 3 = JStr (join '','' ds)) \<and>
            (timestamp e = JNull \<longrightarrow> flat_row e ! 6 = JStr []) \<and>
            (\<forall>t. timestamp e = JDate t \<longrightarrow>
               flat_row e ! 6 = JStr (isoformat t) \<and> iso_shape (isoformat t)))"
proof -
  have "\<forall>e\<in>set es. csv_row e = Inr (flat_row e)"
    using typed by (intro ballI csv_row_typed) blast+
  then have rows: "csv_rows es = Inr (map flat_row es)" by (rule csv_rows_typed)
  have cells: "(\<forall>ds. desires e = JList (map JStr ds) \<longrightarrow> flat_row e ! 3 = JStr (join '','' ds)) \<and>
            (timestamp e = JNull \<longrightarrow> flat_row e ! 6 = JStr []) \<and>
            (\<forall>t. timestamp e = JDate t \<longrightarrow>
               flat_row e ! 6 = JStr (isoformat t) \<and> iso_shape (isoformat t))"
    if "e \<in> set es" for e
    using typed that by (auto simp: flat_row_def desire_strs_JStr isoformat_shape)
  from rows cells show ?thesis by blast
qed

lemma isoformat_t0: "isoformat t0 = ''2024-01-02T03:04:05''"
  by (simp add: isoformat_def zpad_def t0_def dec.simps)

text \<open>
  The handler never answers: when the rows are built without an error, the text stream
  given to \<^verbatim>\<open>send_file\<close> is refused.
\<close>

lemma export_csv_raises: "\<exists>err. export_csv_fn s = (s, Raised err)"
  by (cases "csv_rows (eng_col s)") (simp_all add: export_csv_fn_def bind_err_def)

lemma export_csv_value_error:
  "csv_rows (eng_col s) = Inr rows \<Longrightarrow> export_csv_fn s = (s, Raised ValueError)"
  by (simp add: export_csv_fn_def bind_err_def)

lemma export_state:
  "run sort_desc export_requests admin_state =
     admin_state\<lparr>eng_col :=
       [\<lparr> oid = ''e1'', user_id = JStr ''u1'', age = JNull, job = JNull,
          desires = JList [JStr ''a'', JStr ''b''], question_clicked = JNull, service = JNull,
          timestamp = JDate t0 \<rparr>,
        \<lparr> oid = ''e2'', user_id = JNull, age = JNull, job = JNull,
          desires = JList [], question_clicked = JNull, service = JNull,
          timestamp = JDate t0 \<rparr>]\<rparr>"
  by (simp add: export_requests_def admin_state_def log_engagement_def engagement_doc_def
      insert_one_def py_or_def bind_err_def get_def)

text \<open>
  Claim C7 fails in the code. After two engagements are logged on the empty store, one
  of user \<^verbatim>\<open>u1\<close> with the desires a and b and one with an empty body, both at
  \<^verbatim>\<open>2024-01-02T03:04:05\<close>, the export of a logged-in admin builds the rows as the claim
  says: \<^verbatim>\<open>u1\<close>, \<^verbatim>\<open>a,b\<close> and the ISO timestamp in the first row, an empty desire cell in
  the second, the columns in the order of the header. It then passes a text stream to
  \<^verbatim>\<open>send_file\<close>, which raises \<^verbatim>\<open>ValueError\<close>: the request fails, no CSV is sent, and
  the state is as before.
\<close>

theorem export_csv_send_file_raises:
  "csv_rows (eng_col (run sort_desc export_requests admin_state)) =
     Inr [[JStr ''u1'', JNull, JNull, JStr ''a,b'', JNull, JNull, JStr ''2024-01-02T03:04:05''],
          [JNull, JNull, JNull, JStr [], JNull, JNull, JStr ''2024-01-02T03:04:05'']] \<and>
   admin_route sort_desc ExportCsv (run sort_desc export_requests admin_state) =
     (run sort_desc export_requests admin_state, Raised ValueError)"
proof -
  let ?s = "run sort_desc export_requests admin_state"
  have rows: "csv_rows (eng_col ?s) =
     Inr [[JStr ''u1'', JNull, JNull, JStr ''a,b'', JNull, JNull, JStr ''2024-01-02T03:04:05''],
          [JNull, JNull, JNull, JStr [], JNull, JNull, JStr ''2024-01-02T03:04:05'']]"
    by (simp add: export_state csv_row_def py_join_def py_or_def bind_err_def isoformat_t0)
  have "truthy (get (session ?s) ''admin_logged_in'')"
    by (simp add: export_state) (simp add: admin_state_def get_def)
  then have "admin_route sort_desc ExportCsv ?s = export_csv_fn ?s"
    by (simp add: admin_required_def)
  with rows export_csv_value_error [OF rows] show ?thesis by simp
qed

end
